theory Spec2Isabelle
  imports Main "HOL-Library.AList"
begin

section \<open>The Document of mmda/types/document.py\<close>

text \<open>
  The module is Python: objects are mutable and shared by reference, attributes are
  created at run time (\<^verbatim>\<open>setattr\<close>) and every failure is an exception. The embedding keeps
  that: a \<^emph>\<open>world\<close> holds the objects (the lists of field names, the Document instances
  with their attribute dictionaries, the Annotation objects), every method takes the world
  and returns either \<open>Returns v w'\<close> or \<open>Raises e w'\<close>, the world being the one the
  exception leaves behind.

  Python names that start with an underscore are written with the prefix \<open>u_\<close>
  (\<^verbatim>\<open>_register_field\<close> is \<open>u_register_field\<close>), \<^verbatim>\<open>__init__\<close> is \<open>init\<close>.
\<close>

subsection \<open>Values\<close>

type_synonym addr = nat

datatype error =
    AssertionError string
  | AttributeError string
  | TypeError string
  | ValueError string
  | KeyError string
  | FileNotFoundError
  | IsADirectoryError
  | NotADirectoryError
  | OSError

datatype json = JNull | JNum int | JStr string | JList "json list" | JDict "(string \<times> json) list"

text \<open>
  Modelled from the spec: \<^verbatim>\<open>DocumentSymbols\<close> (mmda.types.document_elements) is imported, not
  defined, by document.py. The spec gives it a \<^verbatim>\<open>page_count\<close> and a collaborator-defined
  serialized value; \<open>symbols_json\<close> is what iterating the object and calling
  \<^verbatim>\<open>to_json()\<close> on every element yields.
\<close>

record DocumentSymbols =
  page_count :: nat
  symbols_json :: "json list"

text \<open>
  Modelled from the spec: an \<^verbatim>\<open>Image\<close> (mmda.types.image) is an opaque payload, here the
  string of its encoded bytes, which is also its serialized value.
\<close>

type_synonym Image = string

text \<open>
  Modelled from the spec: an \<^verbatim>\<open>Annotation\<close> (mmda.types.annotation) holds, once bound, a
  reference back to its Document (\<^verbatim>\<open>annotation.doc\<close>, \<open>None\<close> before) and serializes to a
  JSON value (\<open>body\<close>).
\<close>

record Annotation =
  doc :: "addr option"
  body :: json

text \<open>
  Modelled from the spec: \<^verbatim>\<open>DocSpanGroupIndexer(num_pages=...)\<close> (mmda.types.annotation) is
  constructed from the page count; what it stores beyond that is not in this module.
\<close>

record Indexer =
  num_pages :: nat

text \<open>The values an attribute of a Document can hold.\<close>

datatype pyval =
    PNone
  | PSymbols DocumentSymbols
  | PImages "Image list"
  | PNames addr
  | PIndexers "(string \<times> Indexer) list"
  | PAnnotations "addr list"
  | PJson json
  | PMethod string
  | PKeys "string list"

text \<open>
  \<open>PNames a\<close> is a reference to the list object at address \<open>a\<close> (a list of field names):
  two attributes holding \<open>PNames a\<close> see each other's \<^verbatim>\<open>append\<close>. \<open>PAnnotations\<close> is a
  sequence of references to Annotation objects. \<open>PJson\<close> is a string, a number, a sequence or
  a dictionary of such values, \<open>PMethod\<close> a method or any other object that a loop cannot
  iterate, \<open>PKeys\<close> a dictionary of which only the keys are looked at. The calls made to
  the two collaborators whose effect is outside this module are recorded in order.
\<close>

datatype call = NewIndexer nat | Annotate addr addr

record world =
  names_heap :: "(addr \<times> string list) list"
  documents :: "(addr \<times> (string \<times> pyval) list) list"
  annotations :: "(addr \<times> Annotation) list"
  calls :: "call list"

datatype 'a result = Returns 'a world | Raises error world

subsection \<open>The class\<close>

text \<open>
  Modelled from the spec: \<^verbatim>\<open>Symbols\<close> and \<^verbatim>\<open>Images\<close> (mmda.types.names) are the two reserved
  field names, the names of the attributes \<^verbatim>\<open>__init__\<close> sets.
\<close>

definition Symbols :: string where
  "Symbols = ''symbols''"

definition Images :: string where
  "Images = ''images''"

text \<open>
  \<^verbatim>\<open>DEFAULT_FIELDS = [Symbols, Images]\<close> is evaluated once, when the class body runs: the
  class attribute is a reference to one list object.
\<close>

definition DEFAULT_FIELDS :: addr where
  "DEFAULT_FIELDS = 0"

definition module_init :: world where
  "module_init = \<lparr>names_heap = [(DEFAULT_FIELDS, [Symbols, Images])], documents = [],
     annotations = [], calls = []\<rparr>"

definition method_names :: "string list" where
  "method_names = [''_register_field'', ''_annotate'', ''annotate'', ''_add'', ''add'',
     ''to_json'', ''save'', ''from_json'', ''load'', ''find'']"

text \<open>The attributes the class body defines (the property \<^verbatim>\<open>fields\<close> is \<open>fields_doc\<close> below).\<close>

definition class_attr :: "string \<Rightarrow> pyval option" where
  "class_attr name =
     (if name = ''DEFAULT_FIELDS'' then Some (PNames DEFAULT_FIELDS)
      else if name \<in> set method_names then Some (PMethod name)
      else None)"

text \<open>
  The members an instance has without the class body naming them, from \<^verbatim>\<open>object\<close> and from
  the \<^verbatim>\<open>@dataclass\<close> decorator, as CPython 3.11 gives them (\<^verbatim>\<open>__dict__\<close> is in \<open>getattr\<close>
  below). The class has no dataclass field, so \<^verbatim>\<open>__dataclass_fields__\<close> is an empty
  dictionary and \<^verbatim>\<open>__match_args__\<close> an empty tuple; \<^verbatim>\<open>__doc__\<close> and \<^verbatim>\<open>__module__\<close> are
  strings, of which a loop only sees that they are not empty; \<^verbatim>\<open>__hash__\<close> (the decorator
  generates \<^verbatim>\<open>__eq__\<close>) and \<^verbatim>\<open>__weakref__\<close> are \<open>None\<close>; the others are methods or objects
  that cannot be iterated.
\<close>

definition object_members :: "(string \<times> pyval) list" where
  "object_members =
     [(''__dataclass_fields__'', PJson (JDict [])), (''__match_args__'', PJson (JList [])),
      (''__doc__'', PJson (JStr ''Document'')), (''__module__'', PJson (JStr ''mmda.types.document'')),
      (''__hash__'', PNone), (''__weakref__'', PNone)]
     @ map (\<lambda>name. (name, PMethod name))
        [''__class__'', ''__dataclass_params__'', ''__delattr__'', ''__dir__'', ''__eq__'',
         ''__format__'', ''__ge__'', ''__getattribute__'', ''__getstate__'', ''__gt__'',
         ''__init__'', ''__init_subclass__'', ''__le__'', ''__lt__'', ''__ne__'', ''__new__'',
         ''__reduce__'', ''__reduce_ex__'', ''__repr__'', ''__setattr__'', ''__sizeof__'',
         ''__str__'', ''__subclasshook__'']"

definition inst_dict :: "world \<Rightarrow> addr \<Rightarrow> (string \<times> pyval) list" where
  "inst_dict w self = (case map_of (documents w) self of None \<Rightarrow> [] | Some d \<Rightarrow> d)"

text \<open>
  \<^verbatim>\<open>self.name\<close> for a name that is not a property: the instance first, then the class, then
  what every instance has.
\<close>

definition attr :: "world \<Rightarrow> addr \<Rightarrow> string \<Rightarrow> error + pyval" where
  "attr w self name =
     (case map_of (inst_dict w self) name of
        Some v \<Rightarrow> Inr v
      | None \<Rightarrow>
          (case class_attr name of
             Some v \<Rightarrow> Inr v
           | None \<Rightarrow> (case map_of object_members name of
                        Some v \<Rightarrow> Inr v
                      | None \<Rightarrow> Inl (AttributeError name))))"

text \<open>The property \<^verbatim>\<open>fields\<close> (\<open>fields_doc\<close>, the name being taken): \<^verbatim>\<open>return self._fields\<close>.\<close>

definition fields_doc :: "world \<Rightarrow> addr \<Rightarrow> error + pyval" where
  "fields_doc w self = attr w self ''_fields''"

text \<open>
  \<^verbatim>\<open>getattr(self, name)\<close>: the property \<^verbatim>\<open>fields\<close> wins over the instance, and so does
  \<^verbatim>\<open>__dict__\<close>, which is the dictionary of the instance's own attributes.
\<close>

definition getattr :: "world \<Rightarrow> addr \<Rightarrow> string \<Rightarrow> error + pyval" where
  "getattr w self name =
     (if name = ''fields'' then fields_doc w self
      else if name = ''__dict__'' then Inr (PKeys (map fst (inst_dict w self)))
      else attr w self name)"

text \<open>\<^verbatim>\<open>setattr(self, name, v)\<close>: the property \<^verbatim>\<open>fields\<close> has no setter.\<close>

definition setattr :: "world \<Rightarrow> addr \<Rightarrow> string \<Rightarrow> pyval \<Rightarrow> unit result" where
  "setattr w self name v =
     (if name = ''fields'' then Raises (AttributeError ''fields'') w
      else Returns () (w\<lparr>documents :=
             AList.update self (AList.update name v (inst_dict w self)) (documents w)\<rparr>))"

text \<open>
  \<^verbatim>\<open>dir(self)\<close>: the keys of the instance and the names of the class body. The names of
  \<open>object_members\<close> and \<^verbatim>\<open>__dict__\<close> are left out: \<^verbatim>\<open>dir\<close> is only asked about a name that
  does not start with an underscore (the first assertion of \<^verbatim>\<open>_register_field\<close>).
\<close>

definition dir :: "world \<Rightarrow> addr \<Rightarrow> string list" where
  "dir w self = map fst (inst_dict w self) @ ''DEFAULT_FIELDS'' # ''fields'' # method_names"

text \<open>The strings of a list of names, read through a reference.\<close>

definition names_at :: "world \<Rightarrow> pyval \<Rightarrow> error + string list" where
  "names_at w v =
     (case v of
        PNames a \<Rightarrow> (case map_of (names_heap w) a of
                       Some xs \<Rightarrow> Inr xs
                     | None \<Rightarrow> Inl (TypeError ''not a list''))
      | _ \<Rightarrow> Inl (TypeError ''not a list''))"

definition fresh :: "(addr \<times> 'a) list \<Rightarrow> addr" where
  "fresh xs = Suc (fold max (map fst xs) 0)"

text \<open>
  \<^verbatim>\<open>__init__\<close>: a new instance with four attributes. \<^verbatim>\<open>self._fields = self.DEFAULT_FIELDS\<close>
  stores the class's reference, not a copy of the list; \<^verbatim>\<open>self._indexers = {}\<close> is a new
  dictionary.
\<close>

definition init :: "world \<Rightarrow> pyval \<Rightarrow> pyval \<Rightarrow> addr \<times> world" where
  "init w symbols images =
     (let self = fresh (documents w);
          d = [(''symbols'', symbols), (''images'', images),
               (''_fields'', PNames DEFAULT_FIELDS), (''_indexers'', PIndexers [])]
      in (self, w\<lparr>documents := documents w @ [(self, d)]\<rparr>))"

subsection \<open>Registering a field\<close>

definition startswith :: "string \<Rightarrow> string \<Rightarrow> bool" where
  "startswith s p = (take (length p) s = p)"

text \<open>
  \<^verbatim>\<open>_register_field\<close>: four assertions, then \<^verbatim>\<open>self._fields.append(field_name)\<close> on the list
  object, then the right-hand side \<^verbatim>\<open>DocSpanGroupIndexer(num_pages=self.symbols.page_count)\<close>
  and the store into \<^verbatim>\<open>self._indexers\<close> (assigning to a key of a dictionary replaces the
  value in place or appends the key, which is \<open>AList.update\<close>).
\<close>

definition u_register_field :: "world \<Rightarrow> addr \<Rightarrow> string \<Rightarrow> unit result" where
  "u_register_field w self field_name =
     (if startswith field_name ''_''
      then Raises (AssertionError ''The field_name should not start with `_`. '') w
      else case fields_doc w self of Inl e \<Rightarrow> Raises e w | Inr fv \<Rightarrow>
      (case names_at w fv of Inl e \<Rightarrow> Raises e w | Inr fs \<Rightarrow>
      if field_name \<in> set fs
      then Raises (AssertionError ''This field name already exists'') w
      else if field_name \<in> set [''fields'']
      then Raises (AssertionError ''The field_name should not be 'fields'.'') w
      else if field_name \<in> set (dir w self)
      then Raises (AssertionError
             (''The field_name should not conflict with existing class properties '' @ field_name)) w
      else (case fv of PNames a \<Rightarrow>
        (let w1 = w\<lparr>names_heap := AList.update a (fs @ [field_name]) (names_heap w)\<rparr>
         in case attr w1 self ''symbols'' of Inl e \<Rightarrow> Raises e w1 | Inr sv \<Rightarrow>
           (case sv of PSymbols s \<Rightarrow>
              (let w2 = w1\<lparr>calls := calls w1 @ [NewIndexer (page_count s)]\<rparr>
               in case attr w2 self ''_indexers'' of Inl e \<Rightarrow> Raises e w2 | Inr iv \<Rightarrow>
                 (case iv of PIndexers d \<Rightarrow>
                    Returns () (w2\<lparr>documents := AList.update self
                      (AList.update ''_indexers''
                         (PIndexers (AList.update field_name \<lparr>num_pages = page_count s\<rparr> d))
                         (inst_dict w2 self)) (documents w2)\<rparr>)
                  | _ \<Rightarrow> Raises (TypeError ''item assignment'') w2))
            | _ \<Rightarrow> Raises (AttributeError ''page_count'') w1))
       | _ \<Rightarrow> Raises (AttributeError ''append'') w)))"

subsection \<open>annotate\<close>

text \<open>
  Modelled from the spec: \<^verbatim>\<open>annotation.annotate(doc)\<close> (mmda.types.annotation) associates the
  annotation with the document, after which the annotation refers back to it. An address
  that holds no Annotation is some other object, which has no such method.
\<close>

definition Annotation_annotate :: "world \<Rightarrow> addr \<Rightarrow> addr \<Rightarrow> unit result" where
  "Annotation_annotate w a d =
     (case map_of (annotations w) a of
        None \<Rightarrow> Raises (AttributeError ''annotate'') w
      | Some ann \<Rightarrow> Returns () (w\<lparr>annotations := AList.update a (ann\<lparr>doc := Some d\<rparr>) (annotations w),
                                  calls := calls w @ [Annotate a d]\<rparr>))"

text \<open>
  The loop \<^verbatim>\<open>for annotation in field_annotations: annotation = annotation.annotate(self)\<close>:
  the value returned is bound to the loop variable and dropped.
\<close>

fun annotate_each :: "world \<Rightarrow> addr \<Rightarrow> addr list \<Rightarrow> unit result" where
  "annotate_each w self [] = Returns () w"
| "annotate_each w self (a # as) =
     (case Annotation_annotate w a self of
        Raises e w' \<Rightarrow> Raises e w'
      | Returns _ w' \<Rightarrow> annotate_each w' self as)"

definition u_annotate :: "world \<Rightarrow> addr \<Rightarrow> string \<Rightarrow> addr list \<Rightarrow> unit result" where
  "u_annotate w self field_name field_annotations =
     (case u_register_field w self field_name of
        Raises e w' \<Rightarrow> Raises e w'
      | Returns _ w1 \<Rightarrow>
          (case annotate_each w1 self field_annotations of
             Raises e w' \<Rightarrow> Raises e w'
           | Returns _ w2 \<Rightarrow> setattr w2 self field_name (PAnnotations field_annotations)))"

text \<open>
  \<^verbatim>\<open>annotate(**annotations)\<close>: the keyword arguments the body receives, in the order they were
  given (a call with a keyword named \<^verbatim>\<open>self\<close> is refused before the body runs and is no
  input of this function; the same holds for \<^verbatim>\<open>add\<close>).
\<close>

fun annotate :: "world \<Rightarrow> addr \<Rightarrow> (string \<times> addr list) list \<Rightarrow> unit result" where
  "annotate w self [] = Returns () w"
| "annotate w self ((field_name, field_annotations) # rest) =
     (case u_annotate w self field_name field_annotations of
        Raises e w' \<Rightarrow> Raises e w'
      | Returns _ w' \<Rightarrow> annotate w' self rest)"

subsection \<open>add\<close>

text \<open>
  The class is decorated with \<^verbatim>\<open>@dataclass\<close> and defines no \<^verbatim>\<open>__eq__\<close>, so the decorator
  generates one: two instances of the class are equal when the tuples of their dataclass
  fields are. A dataclass field is a class-level name with a type annotation, and the class
  body has none (\<^verbatim>\<open>DEFAULT_FIELDS\<close> is not annotated, the annotation on \<^verbatim>\<open>self._indexers\<close> is
  inside \<^verbatim>\<open>__init__\<close>).
\<close>

definition dataclass_fields :: "string list" where
  "dataclass_fields = []"

definition Document_eq :: "world \<Rightarrow> addr \<Rightarrow> addr \<Rightarrow> bool" where
  "Document_eq w a b = (map (attr w a) dataclass_fields = map (attr w b) dataclass_fields)"

text \<open>
  \<^verbatim>\<open>annotation.doc == self\<close>: \<open>None\<close> equals no Document; a Document on the left is compared
  by the generated \<^verbatim>\<open>__eq__\<close>.
\<close>

definition doc_eq :: "world \<Rightarrow> addr option \<Rightarrow> addr \<Rightarrow> bool" where
  "doc_eq w lhs self = (case lhs of None \<Rightarrow> False | Some d \<Rightarrow> Document_eq w d self)"

text \<open>The loop \<^verbatim>\<open>for annotation in field_annotations: assert annotation.doc == self\<close>.\<close>

fun assert_docs :: "world \<Rightarrow> addr \<Rightarrow> addr list \<Rightarrow> error option" where
  "assert_docs w self [] = None"
| "assert_docs w self (a # as) =
     (case map_of (annotations w) a of
        None \<Rightarrow> Some (AttributeError ''doc'')
      | Some ann \<Rightarrow> if doc_eq w (doc ann) self then assert_docs w self as
                    else Some (AssertionError []))"

definition u_add :: "world \<Rightarrow> addr \<Rightarrow> string \<Rightarrow> addr list \<Rightarrow> unit result" where
  "u_add w self field_name field_annotations =
     (case attr w self ''_fields'' of Inl e \<Rightarrow> Raises e w | Inr fv \<Rightarrow>
      (case names_at w fv of Inl e \<Rightarrow> Raises e w | Inr fs \<Rightarrow>
      if field_name \<notin> set fs then Raises (AssertionError []) w
      else (case attr w self ''_indexers'' of Inl e \<Rightarrow> Raises e w | Inr iv \<Rightarrow>
      (case iv of PIndexers d \<Rightarrow>
         if field_name \<notin> set (map fst d) then Raises (AssertionError []) w
         else (case assert_docs w self field_annotations of
                 Some e \<Rightarrow> Raises e w
               | None \<Rightarrow> setattr w self field_name (PAnnotations field_annotations))
       | _ \<Rightarrow> Raises (TypeError ''not a container'') w))))"

fun add :: "world \<Rightarrow> addr \<Rightarrow> (string \<times> addr list) list \<Rightarrow> unit result" where
  "add w self [] = Returns () w"
| "add w self ((field_name, field_annotations) # rest) =
     (case u_add w self field_name field_annotations of
        Raises e w' \<Rightarrow> Raises e w'
      | Returns _ w' \<Rightarrow> add w' self rest)"

subsection \<open>to_json\<close>

text \<open>
  What a \<^verbatim>\<open>for\<close> loop over an attribute's value yields: the Annotations of a sequence, the
  images, the elements of the symbols (each with its serialized value), the strings of a
  list of names or the keys of a dictionary, the items of a JSON value. \<open>None\<close> and a
  method are not iterable.
\<close>

datatype elem = EAnnotation addr | EImage Image | ESymbol json | EStr string | EJson json

definition iter_json :: "json \<Rightarrow> error + json list" where
  "iter_json j =
     (case j of
        JList xs \<Rightarrow> Inr xs
      | JDict d \<Rightarrow> Inr (map (\<lambda>kv. JStr (fst kv)) d)
      | JStr s \<Rightarrow> Inr (map (\<lambda>c. JStr [c]) s)
      | _ \<Rightarrow> Inl (TypeError ''not iterable''))"

definition iterate :: "world \<Rightarrow> pyval \<Rightarrow> error + elem list" where
  "iterate w v =
     (case v of
        PNone \<Rightarrow> Inl (TypeError ''not iterable'')
      | PSymbols s \<Rightarrow> Inr (map ESymbol (symbols_json s))
      | PImages imgs \<Rightarrow> Inr (map EImage imgs)
      | PNames a \<Rightarrow> (case names_at w v of Inl e \<Rightarrow> Inl e | Inr xs \<Rightarrow> Inr (map EStr xs))
      | PIndexers d \<Rightarrow> Inr (map (\<lambda>kv. EStr (fst kv)) d)
      | PAnnotations as \<Rightarrow> Inr (map EAnnotation as)
      | PJson j \<Rightarrow> (case iter_json j of Inl e \<Rightarrow> Inl e | Inr xs \<Rightarrow> Inr (map EJson xs))
      | PMethod m \<Rightarrow> Inl (TypeError ''not iterable'')
      | PKeys ks \<Rightarrow> Inr (map EStr ks))"

text \<open>
  \<^verbatim>\<open>group.to_json()\<close>. Modelled from the spec for the three collaborators (an Annotation
  serializes to its value, an image to its encoded value, an element of the symbols to its
  value); a string or a parsed JSON value has no such method.
\<close>

definition group_to_json :: "world \<Rightarrow> elem \<Rightarrow> error + json" where
  "group_to_json w g =
     (case g of
        EAnnotation a \<Rightarrow> (case map_of (annotations w) a of
                            None \<Rightarrow> Inl (AttributeError ''to_json'')
                          | Some ann \<Rightarrow> Inr (body ann))
      | EImage i \<Rightarrow> Inr (JStr i)
      | ESymbol j \<Rightarrow> Inr j
      | EStr s \<Rightarrow> Inl (AttributeError ''to_json'')
      | EJson j \<Rightarrow> Inl (AttributeError ''to_json''))"

text \<open>The list comprehension \<^verbatim>\<open>[group.to_json() for group in ...]\<close>, left to right.\<close>

fun groups_to_json :: "world \<Rightarrow> elem list \<Rightarrow> error + json list" where
  "groups_to_json w [] = Inr []"
| "groups_to_json w (g # gs) =
     (case group_to_json w g of
        Inl e \<Rightarrow> Inl e
      | Inr j \<Rightarrow> (case groups_to_json w gs of Inl e \<Rightarrow> Inl e | Inr js \<Rightarrow> Inr (j # js)))"

definition field_to_json :: "world \<Rightarrow> addr \<Rightarrow> string \<Rightarrow> error + json" where
  "field_to_json w self field =
     (case getattr w self field of Inl e \<Rightarrow> Inl e | Inr v \<Rightarrow>
      (case iterate w v of Inl e \<Rightarrow> Inl e | Inr gs \<Rightarrow>
      (case groups_to_json w gs of Inl e \<Rightarrow> Inl e | Inr js \<Rightarrow> Inr (JList js))))"

text \<open>
  The dictionary comprehension \<^verbatim>\<open>{field: ... for field in fields}\<close>: the fields in order, a
  repeated key keeps its first position and takes the later value.
\<close>

fun dict_comp :: "world \<Rightarrow> addr \<Rightarrow> string list \<Rightarrow> (string \<times> json) list
    \<Rightarrow> error + (string \<times> json) list" where
  "dict_comp w self [] acc = Inr acc"
| "dict_comp w self (field # rest) acc =
     (case field_to_json w self field of
        Inl e \<Rightarrow> Inl e
      | Inr v \<Rightarrow> dict_comp w self rest (AList.update field v acc))"

definition to_json :: "world \<Rightarrow> addr \<Rightarrow> string list option \<Rightarrow> bool
    \<Rightarrow> error + (string \<times> json) list" where
  "to_json w self fields_arg with_images =
     (case (case fields_arg of
              None \<Rightarrow> (case fields_doc w self of Inl e \<Rightarrow> Inl e | Inr fv \<Rightarrow> names_at w fv)
            | Some fs \<Rightarrow> Inr fs) of
        Inl e \<Rightarrow> Inl e
      | Inr fs \<Rightarrow>
          (let fs' = (if \<not> with_images then filter (\<lambda>field. field \<noteq> Images) fs else fs)
           in dict_comp w self fs' []))"

subsection \<open>find\<close>

text \<open>
  \<^verbatim>\<open>find\<close> (\<open>find_doc\<close>, the name being taken) is decorated with \<^verbatim>\<open>@classmethod\<close>: whatever it is called on, an instance or
  the class, its first parameter (named \<^verbatim>\<open>self\<close>) is bound to the class. So
  \<^verbatim>\<open>self._indexers\<close> is looked up on the class, where only the names of \<open>class_attr\<close> are.
  The indexer's own \<^verbatim>\<open>index\<close> (mmda.types.annotation) is a parameter.
\<close>

definition find_doc :: "(Indexer \<Rightarrow> 'q \<Rightarrow> 'r) \<Rightarrow> world \<Rightarrow> addr \<Rightarrow> 'q \<Rightarrow> string \<Rightarrow> error + 'r" where
  "find_doc index w receiver query field_name =
     (case class_attr ''_indexers'' of
        None \<Rightarrow> Inl (AttributeError ''_indexers'')
      | Some v \<Rightarrow>
          (case v of
             PIndexers d \<Rightarrow> (case map_of d field_name of
                              None \<Rightarrow> Inl (KeyError field_name)
                            | Some ix \<Rightarrow> Inr (index ix query))
           | _ \<Rightarrow> Inl (TypeError ''not subscriptable'')))"

subsection \<open>from_json\<close>

text \<open>
  \<^verbatim>\<open>doc_dict.keys()\<close> is a view of the dictionary's keys. A view of keys has the operations
  of a set and no method \<^verbatim>\<open>pop\<close>: \<^verbatim>\<open>fields.pop(Symbols)\<close> raises AttributeError when the
  attribute is looked up, whatever the keys are.
\<close>

definition dict_keys :: "(string \<times> json) list \<Rightarrow> string list" where
  "dict_keys d = map fst d"

definition dict_keys_pop :: "string list \<Rightarrow> string \<Rightarrow> error + json" where
  "dict_keys_pop view key = Inl (AttributeError ''pop'')"

text \<open>\<^verbatim>\<open>doc_dict.pop(Images, None)\<close>: the value, \<open>None\<close> when the key is absent, and the key removed.\<close>

definition dict_pop_default :: "(string \<times> json) list \<Rightarrow> string \<Rightarrow> pyval \<times> (string \<times> json) list" where
  "dict_pop_default d key =
     (case map_of d key of None \<Rightarrow> (PNone, d) | Some j \<Rightarrow> (PJson j, AList.delete key d))"

text \<open>
  Modelled from the spec: \<^verbatim>\<open>DocumentSymbols.load(field_name, annotations, document)\<close>
  (mmda.types.document_elements) reconstructs an Annotation from a serialized value and binds
  it to the owning Document.
\<close>

definition DocumentSymbols_load :: "world \<Rightarrow> string \<Rightarrow> json \<Rightarrow> addr \<Rightarrow> addr \<times> world" where
  "DocumentSymbols_load w field_name j d =
     (let a = fresh (annotations w)
      in (a, w\<lparr>annotations := annotations w @ [(a, \<lparr>doc = Some d, body = j\<rparr>)]\<rparr>))"

fun load_each :: "world \<Rightarrow> string \<Rightarrow> json list \<Rightarrow> addr \<Rightarrow> addr list \<times> world" where
  "load_each w field_name [] d = ([], w)"
| "load_each w field_name (j # js) d =
     (case DocumentSymbols_load w field_name j d of
        (a, w1) \<Rightarrow> (case load_each w1 field_name js d of (as, w2) \<Rightarrow> (a # as, w2)))"

text \<open>The loop over \<^verbatim>\<open>doc_dict.items()\<close>.\<close>

fun from_json_items :: "world \<Rightarrow> addr \<Rightarrow> (string \<times> json) list \<Rightarrow> unit result" where
  "from_json_items w d [] = Returns () w"
| "from_json_items w d ((field_name, field_annotations) # rest) =
     (case iter_json field_annotations of
        Inl e \<Rightarrow> Raises e w
      | Inr js \<Rightarrow>
          (case load_each w field_name js d of
             (as, w1) \<Rightarrow>
               (case u_add w1 d field_name as of
                  Raises e w' \<Rightarrow> Raises e w'
                | Returns _ w2 \<Rightarrow> from_json_items w2 d rest)))"

text \<open>\<^verbatim>\<open>from_json(cls, doc_dict)\<close>; \<open>doc_dict\<close> is what \<^verbatim>\<open>json.load\<close> or \<^verbatim>\<open>to_json\<close> returned.\<close>

definition from_json :: "world \<Rightarrow> json \<Rightarrow> addr result" where
  "from_json w doc_dict =
     (case doc_dict of
        JDict d \<Rightarrow>
          (let fields = dict_keys d
           in case dict_keys_pop fields Symbols of
                Inl e \<Rightarrow> Raises e w
              | Inr symbols \<Rightarrow>
                  (case dict_pop_default d Images of
                     (images, d') \<Rightarrow>
                       (case init w (PJson symbols) images of
                          (document, w1) \<Rightarrow>
                            (case from_json_items w1 document d' of
                               Raises e w' \<Rightarrow> Raises e w'
                             | Returns _ w2 \<Rightarrow> Returns document w2))))
      | _ \<Rightarrow> Raises (AttributeError ''keys'') w)"

subsection \<open>The file system\<close>

text \<open>
  A path is the list of its components, so \<^verbatim>\<open>os.path.join(path, name)\<close> appends a component
  and \<^verbatim>\<open>os.path.basename\<close> is the last one; the empty path is the directory the others start
  from. A file holds a JSON value (what \<^verbatim>\<open>json.dump\<close> wrote and \<^verbatim>\<open>json.load\<close> reads back) or
  an image. Links and permissions are not modelled.
\<close>

type_synonym path = "string list"

datatype node = Dir | JsonFile json | ImageFile Image

type_synonym filesystem = "(path \<times> node) list"

definition lookup :: "filesystem \<Rightarrow> path \<Rightarrow> node option" where
  "lookup fs p = (if p = [] then Some Dir else map_of fs p)"

definition isdir :: "filesystem \<Rightarrow> path \<Rightarrow> bool" where
  "isdir fs p = (lookup fs p = Some Dir)"

definition join :: "path \<Rightarrow> string \<Rightarrow> path" where
  "join p name = p @ [name]"

definition basename :: "path \<Rightarrow> string" where
  "basename p = (if p = [] then [] else last p)"

text \<open>\<^verbatim>\<open>open(p, "w")\<close> followed by a write: the directory of \<open>p\<close> has to exist.\<close>

definition write_file :: "filesystem \<Rightarrow> path \<Rightarrow> node \<Rightarrow> error + filesystem" where
  "write_file fs p content =
     (if lookup fs p = Some Dir then Inl IsADirectoryError
      else (case lookup fs (butlast p) of
              None \<Rightarrow> Inl FileNotFoundError
            | Some Dir \<Rightarrow> Inr (AList.update p content fs)
            | Some _ \<Rightarrow> Inl NotADirectoryError))"

text \<open>\<^verbatim>\<open>open(p, "r")\<close>.\<close>

definition open_read :: "filesystem \<Rightarrow> path \<Rightarrow> error + node" where
  "open_read fs p =
     (case lookup fs p of
        None \<Rightarrow> Inl FileNotFoundError
      | Some Dir \<Rightarrow> Inl IsADirectoryError
      | Some f \<Rightarrow> Inr f)"

text \<open>\<^verbatim>\<open>json.load(fp)\<close>: a file that is not JSON text raises a ValueError.\<close>

definition json_load :: "node \<Rightarrow> error + json" where
  "json_load f = (case f of JsonFile j \<Rightarrow> Inr j | _ \<Rightarrow> Inl (ValueError ''json''))"

text \<open>
  Modelled from the spec: \<^verbatim>\<open>image.save(path)\<close> and \<^verbatim>\<open>Image.load(path)\<close> (mmda.types.image)
  write and read one image file. Only an image has the method \<^verbatim>\<open>save\<close>.
\<close>

definition Image_save :: "filesystem \<Rightarrow> elem \<Rightarrow> path \<Rightarrow> error + filesystem" where
  "Image_save fs img p =
     (case img of
        EImage i \<Rightarrow> write_file fs p (ImageFile i)
      | _ \<Rightarrow> Inl (AttributeError ''save''))"

definition Image_load :: "filesystem \<Rightarrow> path \<Rightarrow> error + Image" where
  "Image_load fs p =
     (case open_read fs p of
        Inl e \<Rightarrow> Inl e
      | Inr f \<Rightarrow> (case f of ImageFile i \<Rightarrow> Inr i | _ \<Rightarrow> Inl OSError))"

subsection \<open>save\<close>

text \<open>\<^verbatim>\<open>str(n)\<close> for a page index, as the f-string \<^verbatim>\<open>f"{pid}.png"\<close> formats it.\<close>

fun str_nat :: "nat \<Rightarrow> string" where
  "str_nat n =
     (if n < 10 then [char_of (48 + n)]
      else str_nat (n div 10) @ [char_of (48 + n mod 10)])"

declare str_nat.simps [simp del]

text \<open>The loop \<^verbatim>\<open>for pid, image in enumerate(self.images): image.save(...)\<close>.\<close>

fun save_images :: "filesystem \<Rightarrow> path \<Rightarrow> nat \<Rightarrow> elem list \<Rightarrow> (error + unit) \<times> filesystem" where
  "save_images fs p pid [] = (Inr (), fs)"
| "save_images fs p pid (img # rest) =
     (case Image_save fs img (join p (str_nat pid @ ''.png'')) of
        Inl e \<Rightarrow> (Inl e, fs)
      | Inr fs' \<Rightarrow> save_images fs' p (Suc pid) rest)"

definition save :: "world \<Rightarrow> addr \<Rightarrow> filesystem \<Rightarrow> path \<Rightarrow> string list option \<Rightarrow> bool \<Rightarrow> bool
    \<Rightarrow> (error + unit) \<times> filesystem" where
  "save w self fs p fields_arg with_images images_in_json =
     (if with_images \<and> \<not> images_in_json \<and> \<not> isdir fs p
      then (Inl (AssertionError
        ''When with_images=True and images_in_json=False, it requires the path to be a folder''), fs)
      else (case to_json w self fields_arg (with_images \<and> images_in_json) of
        Inl e \<Rightarrow> (Inl e, fs)
      | Inr doc_json \<Rightarrow>
          if with_images \<and> \<not> images_in_json
          then (let json_path = join p ''document.json''
                in case write_file fs json_path (JsonFile (JDict doc_json)) of
                     Inl e \<Rightarrow> (Inl e, fs)
                   | Inr fs1 \<Rightarrow>
                       (case attr w self ''images'' of
                          Inl e \<Rightarrow> (Inl e, fs1)
                        | Inr iv \<Rightarrow>
                            (case iterate w iv of
                               Inl e \<Rightarrow> (Inl e, fs1)
                             | Inr images \<Rightarrow> save_images fs1 p 0 images)))
          else (case write_file fs p (JsonFile (JDict doc_json)) of
                  Inl e \<Rightarrow> (Inl e, fs)
                | Inr fs1 \<Rightarrow> (Inr (), fs1))))"

subsection \<open>load\<close>

text \<open>
  \<^verbatim>\<open>glob(os.path.join(path, "*.png"))\<close>: the entries of the directory whose name ends in
  \<^verbatim>\<open>.png\<close> and does not start with a dot, in the order the directory lists them. The
  directory path is taken literally: a path with one of the characters \<^verbatim>\<open>*?[\<close> is a pattern
  to \<^verbatim>\<open>glob\<close> and is no input of this function.
\<close>

definition endswith :: "string \<Rightarrow> string \<Rightarrow> bool" where
  "endswith s p = (length p \<le> length s \<and> drop (length s - length p) s = p)"

definition glob_png :: "filesystem \<Rightarrow> path \<Rightarrow> path list" where
  "glob_png fs p =
     map fst (filter (\<lambda>entry. fst entry \<noteq> [] \<and> butlast (fst entry) = p
        \<and> endswith (last (fst entry)) ''.png'' \<and> \<not> startswith (last (fst entry)) ''.'') fs)"

text \<open>\<^verbatim>\<open>s.replace('.png', '')\<close>: every occurrence, left to right.\<close>

fun replace_png :: "string \<Rightarrow> string" where
  "replace_png [] = []"
| "replace_png (c # cs) =
     (if startswith (c # cs) ''.png'' then replace_png (drop 3 cs) else c # replace_png cs)"

text \<open>
  \<^verbatim>\<open>int(s)\<close> on a string of ASCII characters: blanks around, an optional sign, decimal
  digits, single underscores between digits.
\<close>

definition is_space :: "char \<Rightarrow> bool" where
  "is_space c = (c = CHR '' '' \<or> (9 \<le> (of_char c :: nat) \<and> (of_char c :: nat) \<le> 13))"

definition strip :: "string \<Rightarrow> string" where
  "strip s = rev (dropWhile is_space (rev (dropWhile is_space s)))"

definition digit_val :: "char \<Rightarrow> nat option" where
  "digit_val c =
     (if 48 \<le> (of_char c :: nat) \<and> (of_char c :: nat) \<le> 57 then Some (of_char c - 48) else None)"

fun int_digits :: "bool \<Rightarrow> nat \<Rightarrow> string \<Rightarrow> nat option" where
  "int_digits after_digit acc [] = (if after_digit then Some acc else None)"
| "int_digits after_digit acc (c # cs) =
     (if c = CHR ''_'' then (if after_digit \<and> cs \<noteq> [] then int_digits False acc cs else None)
      else (case digit_val c of
              None \<Rightarrow> None
            | Some d \<Rightarrow> int_digits True (10 * acc + d) cs))"

definition py_int :: "string \<Rightarrow> int option" where
  "py_int s =
     (case strip s of
        [] \<Rightarrow> None
      | c # cs \<Rightarrow>
          if c = CHR ''-'' then map_option (\<lambda>n. - int n) (int_digits False 0 cs)
          else if c = CHR ''+'' then map_option int (int_digits False 0 cs)
          else map_option int (int_digits False 0 (c # cs)))"

text \<open>
  \<^verbatim>\<open>sorted(image_files, key=lambda x: int(os.path.basename(x).replace('.png', '')))\<close>: the
  keys are computed first (a name that is no integer raises ValueError), the sort is stable.
\<close>

definition page_key :: "path \<Rightarrow> int option" where
  "page_key p = py_int (replace_png (basename p))"

definition sorted_by_page :: "path list \<Rightarrow> error + path list" where
  "sorted_by_page files =
     (if list_all (\<lambda>f. page_key f \<noteq> None) files
      then Inr (sort_key (\<lambda>f. the (page_key f)) files)
      else Inl (ValueError ''invalid literal for int()''))"

fun load_images :: "filesystem \<Rightarrow> path list \<Rightarrow> error + Image list" where
  "load_images fs [] = Inr []"
| "load_images fs (f # rest) =
     (case Image_load fs f of
        Inl e \<Rightarrow> Inl e
      | Inr i \<Rightarrow> (case load_images fs rest of Inl e \<Rightarrow> Inl e | Inr is \<Rightarrow> Inr (i # is)))"

text \<open>The second half of \<^verbatim>\<open>load\<close>, from \<^verbatim>\<open>with open(json_path, "r")\<close> on.\<close>

definition load_document :: "world \<Rightarrow> filesystem \<Rightarrow> path \<Rightarrow> pyval \<Rightarrow> addr result" where
  "load_document w fs json_path images =
     (case open_read fs json_path of
        Inl e \<Rightarrow> Raises e w
      | Inr f \<Rightarrow>
          (case json_load f of
             Inl e \<Rightarrow> Raises e w
           | Inr json_data \<Rightarrow>
               (case from_json w json_data of
                  Raises e w' \<Rightarrow> Raises e w'
                | Returns document w1 \<Rightarrow>
                    (case setattr w1 document ''images'' images of
                       Raises e w' \<Rightarrow> Raises e w'
                     | Returns _ w2 \<Rightarrow> Returns document w2))))"

definition load :: "world \<Rightarrow> filesystem \<Rightarrow> path \<Rightarrow> addr result" where
  "load w fs p =
     (if isdir fs p
      then (let json_path = join p ''document.json''
            in case sorted_by_page (glob_png fs p) of
                 Inl e \<Rightarrow> Raises e w
               | Inr image_files \<Rightarrow>
                   (case load_images fs image_files of
                      Inl e \<Rightarrow> Raises e w
                    | Inr images \<Rightarrow> load_document w fs json_path (PImages images)))
      else load_document w fs p PNone)"

subsection \<open>Reading a state\<close>

definition world_of :: "'a result \<Rightarrow> world" where
  "world_of r = (case r of Returns _ w \<Rightarrow> w | Raises _ w \<Rightarrow> w)"

text \<open>The strings of \<^verbatim>\<open>self.fields\<close>.\<close>

definition field_names :: "world \<Rightarrow> addr \<Rightarrow> error + string list" where
  "field_names w self = (case fields_doc w self of Inl e \<Rightarrow> Inl e | Inr fv \<Rightarrow> names_at w fv)"

subsection \<open>A session with two Documents\<close>

text \<open>
  Three unbound Annotations exist; Document 1 is built with two page images, Document 2
  without; \<^verbatim>\<open>annotate(tokens=[a0, a1])\<close> on the first, \<^verbatim>\<open>annotate(sentences=[a2])\<close> on the
  second, then \<^verbatim>\<open>add(tokens=[a2])\<close> on the first.
\<close>

definition ex_symbols :: DocumentSymbols where
  "ex_symbols = \<lparr>page_count = 2, symbols_json = [JStr ''a b'']\<rparr>"

definition ex_world :: world where
  "ex_world = module_init\<lparr>annotations :=
     [(0, \<lparr>doc = None, body = JNum 10\<rparr>), (1, \<lparr>doc = None, body = JNum 11\<rparr>),
      (2, \<lparr>doc = None, body = JNum 12\<rparr>)]\<rparr>"

definition ex_w1 :: world where
  "ex_w1 = snd (init ex_world (PSymbols ex_symbols) (PImages [''page0'', ''page1'']))"

definition ex_w2 :: world where
  "ex_w2 = snd (init ex_w1 (PSymbols ex_symbols) PNone)"

definition ex_w3 :: world where
  "ex_w3 = world_of (annotate ex_w2 1 [(''tokens'', [0, 1])])"

definition ex_w4 :: world where
  "ex_w4 = world_of (annotate ex_w3 2 [(''sentences'', [2])])"

definition ex_w5 :: world where
  "ex_w5 = world_of (add ex_w4 1 [(''tokens'', [2])])"

definition ex_json :: "(string \<times> json) list" where
  "ex_json = [(''symbols'', JList [JStr ''a b'']), (''tokens'', JList [JNum 10, JNum 11])]"

definition ex_fs :: filesystem where
  "ex_fs = [([''out''], Dir), ([''out'', ''10.png''], ImageFile ''page10''),
     ([''out'', ''document.json''], JsonFile (JDict ex_json)),
     ([''out'', ''9.png''], ImageFile ''page9'')]"


subsection \<open>Violations\<close>


definition ex_w7 :: world where
  "ex_w7 = world_of (annotate ex_w2 1 [(''tokens'', [0, 1]), (''sentences'', [2])])"

subsection \<open>What a program can do to the state\<close>

text \<open>
  One step of a program that uses the class: building a Document, a call of \<^verbatim>\<open>annotate\<close>,
  \<^verbatim>\<open>add\<close>, \<^verbatim>\<open>from_json\<close> or \<^verbatim>\<open>load\<close> (returning or raising), or the caller creating or
  changing Annotation objects. \<^verbatim>\<open>to_json\<close>, \<^verbatim>\<open>save\<close> and \<^verbatim>\<open>find\<close> do not change the state.
\<close>

inductive step :: "world \<Rightarrow> world \<Rightarrow> bool" where
  constructed: "step w (snd (init w symbols images))"
| annotated: "step w (world_of (annotate w self kw))"
| added: "step w (world_of (add w self kw))"
| deserialized: "step w (world_of (from_json w doc_dict))"
| loaded: "step w (world_of (load w fs p))"
| rebound: "step w (w\<lparr>annotations := anns\<rparr>)"

text \<open>A third Document, built after the two \<^verbatim>\<open>annotate\<close> calls of the session.\<close>

definition ex_w8 :: world where
  "ex_w8 = snd (init ex_w4 (PSymbols ex_symbols) PNone)"

text \<open>Every list of names of the first heap is there in the second, possibly longer.\<close>

definition extends :: "(addr \<times> string list) list \<Rightarrow> (addr \<times> string list) list \<Rightarrow> bool" where
  "extends h h' = (\<forall>a xs. map_of h a = Some xs \<longrightarrow> (\<exists>ys. map_of h' a = Some (xs @ ys)))"

text \<open>An empty directory \<open>out\<close>, and what \<^verbatim>\<open>save\<close> of Document 1 makes of it.\<close>

definition ex_dir :: filesystem where
  "ex_dir = [([''out''], Dir)]"

definition ex_saved :: filesystem where
  "ex_saved = [([''out''], Dir), ([''out'', ''document.json''], JsonFile (JDict ex_json)),
     ([''out'', ''0.png''], ImageFile ''page0''), ([''out'', ''1.png''], ImageFile ''page1'')]"

text \<open>The directory \<open>out\<close> with a directory where a file is to be written.\<close>

definition ex_dir_json_taken :: filesystem where
  "ex_dir_json_taken = [([''out''], Dir), ([''out'', ''document.json''], Dir)]"

definition ex_dir_page_taken :: filesystem where
  "ex_dir_page_taken = [([''out''], Dir), ([''out'', ''0.png''], Dir)]"

section \<open>Properties\<close>

subsection \<open>The two Documents of the session\<close>

lemma ex_documents:
  "fst (init ex_world (PSymbols ex_symbols) (PImages [''page0'', ''page1''])) = 1"
  "fst (init ex_w1 (PSymbols ex_symbols) PNone) = 2"
  by code_simp+

subsection \<open>from_json and load\<close>

lemma from_json_dict: "from_json w (JDict d) = Raises (AttributeError ''pop'') w"
  by (simp add: from_json_def dict_keys_pop_def)

text \<open>
  C1 (the code departs from the claim). The claim: \<^verbatim>\<open>Document.from_json(d.to_json())\<close>
  produces a Document whose \<^verbatim>\<open>to_json()\<close> equals \<^verbatim>\<open>d.to_json()\<close>. In the session,
  Document 1 with the field \<^verbatim>\<open>tokens\<close> serializes to \<open>ex_json\<close>, and \<^verbatim>\<open>from_json\<close> of that
  dictionary produces no Document: it raises AttributeError at \<^verbatim>\<open>fields.pop(Symbols)\<close> and
  leaves the state as it was.
\<close>

theorem round_trip_raises:
  "annotate ex_w2 1 [(''tokens'', [0, 1])] = Returns () ex_w3
   \<and> to_json ex_w3 1 None False = Inr ex_json
   \<and> from_json ex_w3 (JDict ex_json) = Raises (AttributeError ''pop'') ex_w3"
  by code_simp

text \<open>
  C9 (the code departs from the claim). The claim: \<^verbatim>\<open>load\<close> of a directory reads
  \<^verbatim>\<open>document.json\<close>, loads the page images sorted by page number and assigns them onto the
  resulting Document; \<^verbatim>\<open>load\<close> of a file loads the JSON only. On the directory \<open>out\<close>,
  which holds \<^verbatim>\<open>document.json\<close>, \<^verbatim>\<open>9.png\<close> and \<^verbatim>\<open>10.png\<close>, the images are found and
  ordered 9 before 10 and the JSON file is there, yet \<^verbatim>\<open>load\<close> raises the AttributeError
  of \<^verbatim>\<open>from_json\<close>, for the directory and for the file.
\<close>

theorem load_raises:
  "isdir ex_fs [''out'']
   \<and> sorted_by_page (glob_png ex_fs [''out'']) = Inr [[''out'', ''9.png''], [''out'', ''10.png'']]
   \<and> open_read ex_fs (join [''out''] ''document.json'') = Inr (JsonFile (JDict ex_json))
   \<and> load ex_world ex_fs [''out''] = Raises (AttributeError ''pop'') ex_world
   \<and> load ex_world ex_fs [''out'', ''document.json''] = Raises (AttributeError ''pop'') ex_world"
  by code_simp

subsection \<open>The shared list of field names\<close>

text \<open>
  C2 (the code departs from the claim). The claim: in every reachable state, every field
  name of a Document other than the two reserved ones has exactly one entry in its indexer
  mapping. After Document 1 has annotated \<^verbatim>\<open>tokens\<close>, the field names of Document 2 contain
  \<^verbatim>\<open>tokens\<close>, which is not reserved, and the indexer mapping of Document 2 is empty.
\<close>

theorem shared_fields_break_registry:
  "annotate ex_w2 1 [(''tokens'', [0, 1])] = Returns () ex_w3
   \<and> field_names ex_w3 2 = Inr [Symbols, Images, ''tokens'']
   \<and> attr ex_w3 2 ''_indexers'' = Inr (PIndexers [])
   \<and> ''tokens'' \<noteq> Symbols \<and> ''tokens'' \<noteq> Images"
  by code_simp

subsection \<open>add and the generated equality\<close>

text \<open>
  C5 (the code departs from the claim). The claim: \<^verbatim>\<open>add\<close> fails when an Annotation of the
  sequence does not reference this exact Document instance. Annotation 2 was bound to
  Document 2 by \<^verbatim>\<open>annotate(sentences=[a2])\<close>; \<^verbatim>\<open>add(tokens=[a2])\<close> on Document 1 returns
  and stores the sequence.
\<close>

theorem add_accepts_other_document:
  "annotate ex_w3 2 [(''sentences'', [2])] = Returns () ex_w4
   \<and> map_of (annotations ex_w4) 2 = Some \<lparr>doc = Some 2, body = JNum 12\<rparr>
   \<and> add ex_w4 1 [(''tokens'', [2])] = Returns () ex_w5
   \<and> getattr ex_w5 1 ''tokens'' = Inr (PAnnotations [2])"
  by code_simp

subsection \<open>find\<close>

text \<open>
  C6 (the code departs from the claim). The claim: \<^verbatim>\<open>find\<close> on a registered field
  delegates to the field's Indexer and returns what it returns. Document 1 has an Indexer
  for \<^verbatim>\<open>tokens\<close>, and \<^verbatim>\<open>find(query, "tokens")\<close> raises AttributeError, whatever the query and
  whatever the Indexer would answer.
\<close>

theorem find_raises_on_registered_field:
  "attr ex_w3 1 ''_indexers'' = Inr (PIndexers [(''tokens'', \<lparr>num_pages = 2\<rparr>)])
   \<and> find_doc index ex_w3 1 query ''tokens'' = Inl (AttributeError ''_indexers'')"
  by (simp add: find_doc_def class_attr_def method_names_def) code_simp

subsection \<open>How the methods change the state\<close>

lemma inst_dict_simps [simp]:
  "inst_dict (w\<lparr>names_heap := h\<rparr>) = inst_dict w"
  "inst_dict (w\<lparr>calls := c\<rparr>) = inst_dict w"
  "inst_dict (w\<lparr>annotations := a\<rparr>) = inst_dict w"
  by (simp_all add: inst_dict_def fun_eq_iff)

lemma inst_dict_update:
  "inst_dict (w\<lparr>documents := AList.update self d (documents w)\<rparr>) x = (if x = self then d else inst_dict w x)"
  by (simp add: inst_dict_def update_conv')

lemma attr_simps [simp]:
  "attr (w\<lparr>names_heap := h\<rparr>) = attr w"
  "attr (w\<lparr>calls := c\<rparr>) = attr w"
  "attr (w\<lparr>annotations := a\<rparr>) = attr w"
  by (simp_all add: attr_def fun_eq_iff)



lemma names_at_Inr: "names_at w v = Inr fs \<Longrightarrow> \<exists>a. v = PNames a \<and> map_of (names_heap w) a = Some fs"
  by (auto simp: names_at_def split: pyval.splits option.splits)


lemma u_register_field_Returns:
  assumes "u_register_field w self n = Returns u w'"
  shows "\<exists>a fs s d. \<not> startswith n ''_'' \<and> n \<noteq> ''fields'' \<and> n \<notin> set (dir w self)
     \<and> attr w self ''_fields'' = Inr (PNames a) \<and> map_of (names_heap w) a = Some fs \<and> n \<notin> set fs
     \<and> attr w self ''symbols'' = Inr (PSymbols s) \<and> attr w self ''_indexers'' = Inr (PIndexers d)
     \<and> w' = w\<lparr>names_heap := AList.update a (fs @ [n]) (names_heap w),
             calls := calls w @ [NewIndexer (page_count s)],
             documents := AList.update self (AList.update ''_indexers''
                (PIndexers (AList.update n \<lparr>num_pages = page_count s\<rparr> d)) (inst_dict w self)) (documents w)\<rparr>"
  using assms unfolding u_register_field_def fields_doc_def
  by (auto simp: Let_def split: if_splits sum.splits pyval.splits dest!: names_at_Inr)


lemma Annotation_annotate_Returns:
  "Annotation_annotate w a self = Returns u w' \<Longrightarrow>
     documents w' = documents w \<and> names_heap w' = names_heap w \<and> calls w' = calls w @ [Annotate a self]"
  by (auto simp: Annotation_annotate_def split: option.splits)

lemma Annotation_annotate_Raises:
  "Annotation_annotate w a self = Raises e w' \<Longrightarrow> e = AttributeError ''annotate'' \<and> w' = w"
  by (auto simp: Annotation_annotate_def split: option.splits)

lemma annotate_each_Returns:
  "annotate_each w self as = Returns u w' \<Longrightarrow>
     documents w' = documents w \<and> names_heap w' = names_heap w
     \<and> calls w' = calls w @ map (\<lambda>a. Annotate a self) as"
proof (induction as arbitrary: w)
  case Nil
  then show ?case by simp
next
  case (Cons a as)
  then obtain w1 where 1: "Annotation_annotate w a self = Returns () w1"
    and 2: "annotate_each w1 self as = Returns u w'"
    by (auto split: result.splits)
  from Cons.IH [OF 2] Annotation_annotate_Returns [OF 1] show ?case by simp
qed

lemma annotate_each_Raises:
  "annotate_each w self as = Raises e w' \<Longrightarrow>
     e = AttributeError ''annotate'' \<and> documents w' = documents w \<and> names_heap w' = names_heap w"
proof (induction as arbitrary: w)
  case Nil
  then show ?case by simp
next
  case (Cons a as)
  show ?case
  proof (cases "Annotation_annotate w a self")
    case (Returns u w1)
    with Cons.prems have "annotate_each w1 self as = Raises e w'" by simp
    from Cons.IH [OF this] Annotation_annotate_Returns [OF Returns] show ?thesis by simp
  next
    case (Raises e1 w1)
    with Cons.prems Annotation_annotate_Raises [OF Raises] show ?thesis by simp
  qed
qed


lemma inst_dict_eq:
  "documents w' = AList.update self d (documents w) \<Longrightarrow>
     inst_dict w' x = (if x = self then d else inst_dict w x)"
  by (simp add: inst_dict_def update_conv')

lemma inst_dict_documents: "documents w' = documents w \<Longrightarrow> inst_dict w' = inst_dict w"
  by (simp add: inst_dict_def fun_eq_iff)

lemma dir_documents: "documents w' = documents w \<Longrightarrow> dir w' = dir w"
  using inst_dict_documents [of w' w] by (simp add: dir_def fun_eq_iff)

lemma attr_documents: "documents w' = documents w \<Longrightarrow> attr w' = attr w"
  using inst_dict_documents [of w' w] by (simp add: attr_def fun_eq_iff)


text \<open>What a successful \<^verbatim>\<open>_annotate\<close> does.\<close>

lemma u_annotate_Returns:
  assumes "u_annotate w self n as = Returns u w'"
  shows "\<exists>a fs s d. \<not> startswith n ''_'' \<and> n \<noteq> ''fields'' \<and> n \<notin> set (dir w self)
     \<and> attr w self ''_fields'' = Inr (PNames a) \<and> map_of (names_heap w) a = Some fs \<and> n \<notin> set fs
     \<and> attr w self ''symbols'' = Inr (PSymbols s) \<and> attr w self ''_indexers'' = Inr (PIndexers d)
     \<and> names_heap w' = AList.update a (fs @ [n]) (names_heap w)
     \<and> calls w' = calls w @ NewIndexer (page_count s) # map (\<lambda>a. Annotate a self) as
     \<and> documents w' = AList.update self (AList.update n (PAnnotations as) (AList.update ''_indexers''
                (PIndexers (AList.update n \<lparr>num_pages = page_count s\<rparr> d)) (inst_dict w self))) (documents w)"
proof -
  from assms obtain w1 w2 where 1: "u_register_field w self n = Returns () w1"
    and 2: "annotate_each w1 self as = Returns () w2"
    and 3: "setattr w2 self n (PAnnotations as) = Returns u w'"
    by (auto simp: u_annotate_def split: result.splits)
  from u_register_field_Returns [OF 1] obtain a fs s d where
    f: "\<not> startswith n ''_''" "n \<noteq> ''fields''" "n \<notin> set (dir w self)"
      "attr w self ''_fields'' = Inr (PNames a)" "map_of (names_heap w) a = Some fs" "n \<notin> set fs"
      "attr w self ''symbols'' = Inr (PSymbols s)" "attr w self ''_indexers'' = Inr (PIndexers d)"
    and w1: "w1 = w\<lparr>names_heap := AList.update a (fs @ [n]) (names_heap w),
             calls := calls w @ [NewIndexer (page_count s)],
             documents := AList.update self (AList.update ''_indexers''
                (PIndexers (AList.update n \<lparr>num_pages = page_count s\<rparr> d)) (inst_dict w self)) (documents w)\<rparr>"
    by blast
  from w1 have d1: "documents w1 = AList.update self (AList.update ''_indexers''
                (PIndexers (AList.update n \<lparr>num_pages = page_count s\<rparr> d)) (inst_dict w self)) (documents w)"
    and h1: "names_heap w1 = AList.update a (fs @ [n]) (names_heap w)"
    and c1: "calls w1 = calls w @ [NewIndexer (page_count s)]"
    by simp_all
  from annotate_each_Returns [OF 2] have
    w2: "documents w2 = documents w1" "names_heap w2 = names_heap w1"
      "calls w2 = calls w1 @ map (\<lambda>a. Annotate a self) as" by simp_all
  from 3 f(2) have w': "documents w' =
             AList.update self (AList.update n (PAnnotations as) (inst_dict w2 self)) (documents w2)"
       "names_heap w' = names_heap w2" "calls w' = calls w2"
    by (auto simp: setattr_def)
  have d2: "inst_dict w2 self = AList.update ''_indexers''
                (PIndexers (AList.update n \<lparr>num_pages = page_count s\<rparr> d)) (inst_dict w self)"
    using inst_dict_eq [of w2 self _ w self] w2(1) d1 by simp
  have r1: "documents w' = AList.update self (AList.update n (PAnnotations as) (AList.update ''_indexers''
                (PIndexers (AList.update n \<lparr>num_pages = page_count s\<rparr> d)) (inst_dict w self))) (documents w)"
    unfolding w'(1) d2 w2(1) d1 by simp
  have r2: "names_heap w' = AList.update a (fs @ [n]) (names_heap w)"
    unfolding w'(2) w2(2) h1 by simp
  have r3: "calls w' = calls w @ NewIndexer (page_count s) # map (\<lambda>a. Annotate a self) as"
    unfolding w'(3) w2(3) c1 by simp
  show ?thesis
    apply (rule exI [of _ a], rule exI [of _ fs], rule exI [of _ s], rule exI [of _ d])
    by (intro conjI f r1 r2 r3)
qed





subsection \<open>A failing field\<close>



subsection \<open>What annotate stores\<close>

lemma dir_keys: "k \<in> fst ` set (inst_dict w self) \<Longrightarrow> k \<in> set (dir w self)"
  by (auto simp: dir_def)

lemma attr_inst: "map_of (inst_dict w self) name = Some v \<Longrightarrow> attr w self name = Inr v"
  by (simp add: attr_def)

lemma attr_underscore_inst:
  "attr w self name = Inr v \<Longrightarrow> class_attr name = None \<Longrightarrow> map_of object_members name = None
   \<Longrightarrow> map_of (inst_dict w self) name = Some v"
  by (auto simp: attr_def split: option.splits)

text \<open>A successful \<^verbatim>\<open>_annotate\<close> keeps every attribute the instance already has, but \<^verbatim>\<open>_indexers\<close>.\<close>

lemma u_annotate_keeps:
  assumes "u_annotate w self n as = Returns u w'"
    and "k \<in> fst ` set (inst_dict w self)" and "k \<noteq> ''_indexers''"
  shows "map_of (inst_dict w' self) k = map_of (inst_dict w self) k"
    and "k \<in> fst ` set (inst_dict w' self)"
proof -
  from u_annotate_Returns [OF assms(1)] obtain s :: DocumentSymbols and d where
    n: "n \<notin> set (dir w self)"
    and d: "documents w' = AList.update self (AList.update n (PAnnotations as) (AList.update ''_indexers''
                (PIndexers (AList.update n \<lparr>num_pages = page_count s\<rparr> d)) (inst_dict w self))) (documents w)"
    by blast
  from n assms(2) have kn: "k \<noteq> n" using dir_keys by blast
  from inst_dict_eq [OF d, of self] have
    i: "inst_dict w' self = AList.update n (PAnnotations as) (AList.update ''_indexers''
                (PIndexers (AList.update n \<lparr>num_pages = page_count s\<rparr> d)) (inst_dict w self))" by simp
  show "map_of (inst_dict w' self) k = map_of (inst_dict w self) k"
    unfolding i using kn assms(3) by (simp add: update_conv')
  show "k \<in> fst ` set (inst_dict w' self)"
    unfolding i using assms(2) by (simp add: dom_update)
qed

lemma u_annotate_sets:
  assumes "u_annotate w self n as = Returns u w'"
  shows "map_of (inst_dict w' self) n = Some (PAnnotations as)"
    and "n \<noteq> ''fields''" and "n \<noteq> ''_indexers''" and "n \<noteq> ''__dict__''"
proof -
  from u_annotate_Returns [OF assms(1)] obtain s :: DocumentSymbols and d where
    n: "\<not> startswith n ''_''" "n \<noteq> ''fields''"
    and d: "documents w' = AList.update self (AList.update n (PAnnotations as) (AList.update ''_indexers''
                (PIndexers (AList.update n \<lparr>num_pages = page_count s\<rparr> d)) (inst_dict w self))) (documents w)"
    by blast
  from inst_dict_eq [OF d, of self] show "map_of (inst_dict w' self) n = Some (PAnnotations as)"
    by (simp add: update_conv')
  show "n \<noteq> ''fields''" by fact
  from n(1) show "n \<noteq> ''_indexers''" by (auto simp: startswith_def)
  from n(1) show "n \<noteq> ''__dict__''" by (auto simp: startswith_def)
qed

lemma annotate_keeps:
  "annotate w self kw = Returns u w' \<Longrightarrow> k \<in> fst ` set (inst_dict w self) \<Longrightarrow> k \<noteq> ''_indexers''
   \<Longrightarrow> map_of (inst_dict w' self) k = map_of (inst_dict w self) k"
proof (induction kw arbitrary: w)
  case Nil
  then show ?case by simp
next
  case (Cons p kw)
  obtain n as where p: "p = (n, as)" by (cases p)
  with Cons.prems(1) obtain w1 where 1: "u_annotate w self n as = Returns () w1"
    and 2: "annotate w1 self kw = Returns u w'" by (auto split: result.splits)
  from u_annotate_keeps [OF 1 Cons.prems(2,3)] Cons.IH [OF 2 _ Cons.prems(3)]
  show ?case by simp
qed

lemma annotate_sets:
  "annotate w self kw = Returns u w' \<Longrightarrow> (n, as) \<in> set kw
   \<Longrightarrow> map_of (inst_dict w' self) n = Some (PAnnotations as) \<and> n \<noteq> ''fields''
       \<and> n \<noteq> ''__dict__''"
proof (induction kw arbitrary: w)
  case Nil
  then show ?case by simp
next
  case (Cons p kw)
  obtain m bs where p: "p = (m, bs)" by (cases p)
  with Cons.prems(1) obtain w1 where 1: "u_annotate w self m bs = Returns () w1"
    and 2: "annotate w1 self kw = Returns u w'" by (auto split: result.splits)
  show ?case
  proof (cases "(n, as) \<in> set kw")
    case True
    from Cons.IH [OF 2 True] show ?thesis .
  next
    case False
    with Cons.prems(2) p have e: "m = n" "bs = as" by auto
    from u_annotate_sets [OF 1] e have s: "map_of (inst_dict w1 self) n = Some (PAnnotations as)"
      "n \<noteq> ''fields''" "n \<noteq> ''_indexers''" "n \<noteq> ''__dict__''" by simp_all
    from s(1) have "n \<in> fst ` set (inst_dict w1 self)" by (metis domI dom_map_of_conv_image_fst)
    from annotate_keeps [OF 2 this s(3)] s show ?thesis by simp
  qed
qed

lemma attr_symbols_inst:
  "attr w self ''symbols'' = Inr v \<Longrightarrow> map_of (inst_dict w self) ''symbols'' = Some v"
  by (rule attr_underscore_inst) (simp_all add: class_attr_def method_names_def object_members_def)

lemma annotate_calls_symbols:
  "annotate w self kw = Returns u w' \<Longrightarrow> attr w self ''symbols'' = Inr (PSymbols s) \<Longrightarrow>
     calls w' = calls w
       @ concat (map (\<lambda>(n, as). NewIndexer (page_count s) # map (\<lambda>a. Annotate a self) as) kw)"
proof (induction kw arbitrary: w)
  case Nil
  then show ?case by simp
next
  case (Cons p kw)
  obtain m bs where p: "p = (m, bs)" by (cases p)
  with Cons.prems(1) obtain w1 where 1: "u_annotate w self m bs = Returns () w1"
    and 2: "annotate w1 self kw = Returns u w'" by (auto split: result.splits)
  from u_annotate_Returns [OF 1] Cons.prems(2) have
    c: "calls w1 = calls w @ NewIndexer (page_count s) # map (\<lambda>a. Annotate a self) bs" by auto
  from attr_symbols_inst [OF Cons.prems(2)]
  have i: "map_of (inst_dict w self) ''symbols'' = Some (PSymbols s)" .
  then have "''symbols'' \<in> fst ` set (inst_dict w self)"
    by (metis domI dom_map_of_conv_image_fst)
  from u_annotate_keeps(1) [OF 1 this] i have "map_of (inst_dict w1 self) ''symbols'' = Some (PSymbols s)"
    by simp
  then have "attr w1 self ''symbols'' = Inr (PSymbols s)" by (rule attr_inst)
  from Cons.IH [OF 2 this] c p show ?case by simp
qed

lemma annotate_calls:
  assumes "annotate w self kw = Returns u w'"
  shows "\<exists>pc. calls w' = calls w
       @ concat (map (\<lambda>(n, as). NewIndexer pc # map (\<lambda>a. Annotate a self) as) kw)"
proof (cases kw)
  case Nil
  with assms show ?thesis by simp
next
  case (Cons p kw')
  obtain m bs where p: "p = (m, bs)" by (cases p)
  with Cons assms obtain w1 where 1: "u_annotate w self m bs = Returns () w1"
    by (auto split: result.splits)
  from u_annotate_Returns [OF 1] obtain s where "attr w self ''symbols'' = Inr (PSymbols s)"
    by blast
  from annotate_calls_symbols [OF assms this] show ?thesis by blast
qed

text \<open>
  C4. After \<^verbatim>\<open>annotate(**m)\<close> has returned, \<^verbatim>\<open>getattr(d, name)\<close> is the sequence given for
  \<open>name\<close>, the same Annotations in the same order, for every name of \<open>m\<close> (a call that
  returns had valid, fresh names: every one passed \<^verbatim>\<open>_register_field\<close>). The calls to the
  collaborators are, field after field in the order of \<open>m\<close>, the creation of the field's
  Indexer by \<^verbatim>\<open>_register_field\<close> and then the binding of every Annotation of the field in
  sequence order.
\<close>

theorem annotate_stores_sequences:
  "annotate w self kw = Returns u w' \<Longrightarrow>
     (\<forall>(field_name, field_annotations) \<in> set kw.
         getattr w' self field_name = Inr (PAnnotations field_annotations))
     \<and> (\<exists>pc. calls w' = calls w @ concat (map (\<lambda>(field_name, field_annotations).
           NewIndexer pc # map (\<lambda>a. Annotate a self) field_annotations) kw))"
proof (intro conjI ballI)
  assume a: "annotate w self kw = Returns u w'"
  fix p assume p: "p \<in> set kw"
  obtain n as where n: "p = (n, as)" by (cases p)
  from annotate_sets [OF a, of n as] p n
  have "map_of (inst_dict w' self) n = Some (PAnnotations as)" "n \<noteq> ''fields''"
    "n \<noteq> ''__dict__''" by simp_all
  then have "getattr w' self n = Inr (PAnnotations as)" by (simp add: getattr_def attr_inst)
  with n show "case p of (field_name, field_annotations) \<Rightarrow>
         getattr w' self field_name = Inr (PAnnotations field_annotations)" by simp
next
  assume a: "annotate w self kw = Returns u w'"
  from annotate_calls [OF a]
  show "\<exists>pc. calls w' = calls w @ concat (map (\<lambda>(field_name, field_annotations).
           NewIndexer pc # map (\<lambda>a. Annotate a self) field_annotations) kw)" .
qed

theorem annotate_stores_sequences_witness:
  "annotate ex_w2 1 [(''tokens'', [0, 1]), (''sentences'', [2])] = Returns () ex_w7
   \<and> getattr ex_w7 1 ''tokens'' = Inr (PAnnotations [0, 1])
   \<and> getattr ex_w7 1 ''sentences'' = Inr (PAnnotations [2])
   \<and> (\<exists>pc. calls ex_w7 = calls ex_w2
         @ [NewIndexer pc, Annotate 0 1, Annotate 1 1, NewIndexer pc, Annotate 2 1])"
proof -
  have h: "annotate ex_w2 1 [(''tokens'', [0, 1]), (''sentences'', [2])] = Returns () ex_w7"
    by code_simp
  note t = annotate_stores_sequences [OF h]
  from t have 1: "getattr ex_w7 1 ''tokens'' = Inr (PAnnotations [0, 1])" by simp
  from t have 2: "getattr ex_w7 1 ''sentences'' = Inr (PAnnotations [2])" by simp
  from t have 3: "\<exists>pc. calls ex_w7 = calls ex_w2
         @ [NewIndexer pc, Annotate 0 1, Annotate 1 1, NewIndexer pc, Annotate 2 1]" by simp
  show ?thesis by (intro conjI h 1 2 3)
qed

subsection \<open>to_json and the images\<close>

lemma dict_comp_keys:
  "dict_comp w self fs acc = Inr js \<Longrightarrow> fst ` set js = fst ` set acc \<union> set fs"
proof (induction fs arbitrary: acc)
  case Nil
  then show ?case by simp
next
  case (Cons f fs)
  then obtain v where "field_to_json w self f = Inr v"
    and "dict_comp w self fs (AList.update f v acc) = Inr js"
    by (auto split: sum.splits)
  from Cons.IH [OF this(2)] show ?case by (auto simp: dom_update)
qed

text \<open>
  C7. \<^verbatim>\<open>to_json\<close> with \<^verbatim>\<open>with_images\<close> false returns a dictionary without the key
  \<^verbatim>\<open>Images\<close>, whatever the \<^verbatim>\<open>fields\<close> argument is: for an explicit list the keys are the
  names of the list without \<^verbatim>\<open>Images\<close>. When \<^verbatim>\<open>fields\<close> is omitted the call is the one
  with the strings of \<^verbatim>\<open>self.fields\<close> as the list.
\<close>

theorem to_json_without_images:
  "(to_json w self fields_arg False = Inr js \<longrightarrow> Images \<notin> fst ` set js)
   \<and> (to_json w self (Some fs) False = Inr js \<longrightarrow> fst ` set js = set fs - {Images})
   \<and> to_json w self None with_images =
       (case field_names w self of
          Inl e \<Rightarrow> Inl e
        | Inr registered \<Rightarrow> to_json w self (Some registered) with_images)"
proof (intro conjI impI)
  assume "to_json w self fields_arg False = Inr js"
  then obtain fs where "dict_comp w self (filter (\<lambda>field. field \<noteq> Images) fs) [] = Inr js"
    by (auto simp: to_json_def split: sum.splits)
  from dict_comp_keys [OF this] show "Images \<notin> fst ` set js" by auto
next
  assume "to_json w self (Some fs) False = Inr js"
  then have "dict_comp w self (filter (\<lambda>field. field \<noteq> Images) fs) [] = Inr js"
    by (simp add: to_json_def)
  from dict_comp_keys [OF this] show "fst ` set js = set fs - {Images}" by auto
next
  show "to_json w self None with_images =
       (case field_names w self of
          Inl e \<Rightarrow> Inl e
        | Inr registered \<Rightarrow> to_json w self (Some registered) with_images)"
    by (simp add: to_json_def field_names_def split: sum.splits)
qed

theorem to_json_without_images_witness:
  "to_json ex_w3 1 (Some [Images, ''tokens'']) False = Inr [(''tokens'', JList [JNum 10, JNum 11])]
   \<and> Images \<notin> fst ` set [(''tokens'', JList [JNum 10, JNum 11])]
   \<and> fst ` set [(''tokens'', JList [JNum 10, JNum 11])] = set [Images, ''tokens''] - {Images}
   \<and> to_json ex_w3 1 (Some [Images, ''tokens'']) True
       = Inr [(Images, JList [JStr ''page0'', JStr ''page1'']), (''tokens'', JList [JNum 10, JNum 11])]"
proof -
  have h: "to_json ex_w3 1 (Some [Images, ''tokens'']) False
      = Inr [(''tokens'', JList [JNum 10, JNum 11])]"
    by code_simp
  note t = to_json_without_images [of ex_w3 1 "Some [Images, ''tokens'']"
      "[(''tokens'', JList [JNum 10, JNum 11])]" "[Images, ''tokens'']"]
  from t h have 1: "Images \<notin> fst ` set [(''tokens'', JList [JNum 10, JNum 11])]" by blast
  from t h have 2: "fst ` set [(''tokens'', JList [JNum 10, JNum 11])] = set [Images, ''tokens''] - {Images}"
    by blast
  have 3: "to_json ex_w3 1 (Some [Images, ''tokens'']) True
       = Inr [(Images, JList [JStr ''page0'', JStr ''page1'']), (''tokens'', JList [JNum 10, JNum 11])]"
    by code_simp
  show ?thesis by (intro conjI h 1 2 3)
qed

subsection \<open>The list of names grows for every Document\<close>

lemma extends_refl: "extends h h"
  by (simp add: extends_def)

lemma extends_trans: "extends h h' \<Longrightarrow> extends h' h'' \<Longrightarrow> extends h h''"
  unfolding extends_def by (metis append.assoc)

lemma extends_update: "map_of h a = Some fs \<Longrightarrow> extends h (AList.update a (fs @ ys) h)"
  by (auto simp: extends_def update_conv')

lemma u_register_field_extends:
  "extends (names_heap w) (names_heap (world_of (u_register_field w self n)))"
  unfolding u_register_field_def fields_doc_def world_of_def
  by (auto simp: Let_def extends_refl extends_update split: if_splits sum.splits pyval.splits
      dest!: names_at_Inr)

lemma annotate_each_names: "names_heap (world_of (annotate_each w self as)) = names_heap w"
  by (cases "annotate_each w self as")
    (auto simp: world_of_def dest: annotate_each_Returns annotate_each_Raises)

lemma setattr_names: "names_heap (world_of (setattr w self n v)) = names_heap w"
  by (simp add: setattr_def world_of_def)

lemma u_annotate_extends:
  "extends (names_heap w) (names_heap (world_of (u_annotate w self n as)))"
proof (cases "u_register_field w self n")
  case (Raises e w1)
  with u_register_field_extends [of w self n] show ?thesis
    by (simp add: u_annotate_def world_of_def)
next
  case (Returns u w1)
  with u_register_field_extends [of w self n] have 1: "extends (names_heap w) (names_heap w1)"
    by (simp add: world_of_def)
  show ?thesis
  proof (cases "annotate_each w1 self as")
    case (Raises e w2)
    with annotate_each_names [of w1 self as] 1 Returns show ?thesis
      by (simp add: u_annotate_def world_of_def)
  next
    case r: (Returns u2 w2)
    with annotate_each_names [of w1 self as] have "names_heap w2 = names_heap w1"
      by (simp add: world_of_def)
    with setattr_names [of w2 self n "PAnnotations as"] 1 Returns r show ?thesis
      by (simp add: u_annotate_def)
  qed
qed

lemma annotate_extends:
  "extends (names_heap w) (names_heap (world_of (annotate w self kw)))"
proof (induction kw arbitrary: w)
  case Nil
  show ?case by (simp add: world_of_def extends_refl)
next
  case (Cons p kw)
  obtain n as where p: "p = (n, as)" by (cases p)
  show ?case
  proof (cases "u_annotate w self n as")
    case (Raises e w1)
    with u_annotate_extends [of w self n as] p show ?thesis by (simp add: world_of_def)
  next
    case (Returns u w1)
    with u_annotate_extends [of w self n as] have "extends (names_heap w) (names_heap w1)"
      by (simp add: world_of_def)
    from extends_trans [OF this Cons.IH [of w1]] Returns p show ?thesis by simp
  qed
qed

lemma u_add_names: "names_heap (world_of (u_add w self n as)) = names_heap w"
  unfolding u_add_def world_of_def
  by (auto simp: setattr_def split: sum.splits if_splits pyval.splits option.splits)

lemma add_names: "names_heap (world_of (add w self kw)) = names_heap w"
proof (induction kw arbitrary: w)
  case Nil
  show ?case by (simp add: world_of_def)
next
  case (Cons p kw)
  obtain n as where p: "p = (n, as)" by (cases p)
  show ?case
  proof (cases "u_add w self n as")
    case (Raises e w1)
    with u_add_names [of w self n as] p show ?thesis by (simp add: world_of_def)
  next
    case (Returns u w1)
    with u_add_names [of w self n as] have "names_heap w1 = names_heap w"
      by (simp add: world_of_def)
    with Cons.IH [of w1] Returns p show ?thesis by simp
  qed
qed

lemma from_json_Raises: "\<exists>e. from_json w doc_dict = Raises e w"
  by (cases doc_dict) (simp_all add: from_json_def dict_keys_pop_def)

lemma from_json_world: "world_of (from_json w doc_dict) = w"
  using from_json_Raises [of w doc_dict] by (auto simp: world_of_def)

lemma load_document_world: "world_of (load_document w fs p images) = w"
proof (cases "open_read fs p")
  case (Inl e)
  then show ?thesis by (simp add: load_document_def world_of_def)
next
  case (Inr f)
  show ?thesis
  proof (cases "json_load f")
    case (Inl e)
    with Inr show ?thesis by (simp add: load_document_def world_of_def)
  next
    case j: (Inr json_data)
    from from_json_Raises [of w json_data] obtain e where "from_json w json_data = Raises e w" ..
    with Inr j show ?thesis by (simp add: load_document_def world_of_def)
  qed
qed

lemma load_world: "world_of (load w fs p) = w"
  using load_document_world [of w fs]
  by (auto simp: load_def world_of_def Let_def split: sum.splits)

lemma step_extends: "step w w' \<Longrightarrow> extends (names_heap w) (names_heap w')"
proof (induction rule: step.induct)
  case (constructed w symbols images)
  show ?case by (simp add: init_def Let_def extends_refl)
next
  case (annotated w self kw)
  show ?case by (rule annotate_extends)
next
  case (added w self kw)
  show ?case by (simp add: add_names extends_refl)
next
  case (deserialized w doc_dict)
  show ?case by (simp add: from_json_world extends_refl)
next
  case (loaded w fs p)
  show ?case by (simp add: load_world extends_refl)
next
  case (rebound w anns)
  show ?case by (simp add: extends_refl)
qed

lemma steps_extends: "step\<^sup>*\<^sup>* w w' \<Longrightarrow> extends (names_heap w) (names_heap w')"
  by (induction rule: rtranclp_induct) (auto intro: extends_refl extends_trans step_extends)


lemma attr_fields_inst:
  "attr w self ''_fields'' = Inr v \<Longrightarrow> map_of (inst_dict w self) ''_fields'' = Some v"
  by (rule attr_underscore_inst) (simp_all add: class_attr_def method_names_def object_members_def)

lemma u_annotate_registers:
  assumes "u_annotate w self n as = Returns u w'" and "attr w self ''_fields'' = Inr (PNames a)"
  shows "\<exists>fs. map_of (names_heap w') a = Some fs \<and> n \<in> set fs"
    and "attr w' self ''_fields'' = Inr (PNames a)"
    and "\<not> startswith n ''_''"
proof -
  from u_annotate_Returns [OF assms(1)] assms(2) obtain fs where
    "map_of (names_heap w) a = Some fs" "names_heap w' = AList.update a (fs @ [n]) (names_heap w)"
    by auto
  then show "\<exists>fs. map_of (names_heap w') a = Some fs \<and> n \<in> set fs"
    by (simp add: update_conv')
  from attr_fields_inst [OF assms(2)] have i: "map_of (inst_dict w self) ''_fields'' = Some (PNames a)" .
  then have "''_fields'' \<in> fst ` set (inst_dict w self)" by (metis domI dom_map_of_conv_image_fst)
  from u_annotate_keeps(1) [OF assms(1) this] i
  have "map_of (inst_dict w' self) ''_fields'' = Some (PNames a)" by simp
  then show "attr w' self ''_fields'' = Inr (PNames a)" by (rule attr_inst)
  from u_annotate_Returns [OF assms(1)] show "\<not> startswith n ''_''" by auto
qed

lemma annotate_registers:
  "annotate w self kw = Returns u w' \<Longrightarrow> n \<in> fst ` set kw \<Longrightarrow> attr w self ''_fields'' = Inr (PNames a)
   \<Longrightarrow> (\<exists>fs. map_of (names_heap w') a = Some fs \<and> n \<in> set fs) \<and> \<not> startswith n ''_''"
proof (induction kw arbitrary: w)
  case Nil
  then show ?case by simp
next
  case (Cons p kw)
  obtain m bs where p: "p = (m, bs)" by (cases p)
  with Cons.prems(1) obtain w1 where 1: "u_annotate w self m bs = Returns () w1"
    and 2: "annotate w1 self kw = Returns u w'" by (auto split: result.splits)
  note r = u_annotate_registers [OF 1 Cons.prems(3)]
  show ?case
  proof (cases "n \<in> fst ` set kw")
    case True
    from Cons.IH [OF 2 True r(2)] show ?thesis .
  next
    case False
    with Cons.prems(2) p have e: "m = n" by auto
    from r(1) e obtain fs where fs: "map_of (names_heap w1) a = Some fs" "n \<in> set fs" by blast
    from annotate_extends [of w1 self kw] 2 have "extends (names_heap w1) (names_heap w')"
      by (simp add: world_of_def)
    with fs(1) obtain ys where "map_of (names_heap w') a = Some (fs @ ys)"
      by (auto simp: extends_def)
    with fs(2) r(3) e show ?thesis by simp
  qed
qed

lemma fold_max_ge: "(x::nat) \<in> set xs \<Longrightarrow> x \<le> fold max xs b"
proof (induction xs arbitrary: b)
  case Nil
  then show ?case by simp
next
  case (Cons y ys)
  have m: "c \<le> fold max ys c" for c :: nat
    by (induction ys arbitrary: c) (auto intro: order_trans [OF max.cobounded2])
  from Cons show ?case
  proof (cases "x = y")
    case True
    have "y \<le> max y b" by simp
    also have "\<dots> \<le> fold max ys (max y b)" by (rule m)
    finally show ?thesis using True by simp
  next
    case False
    with Cons show ?thesis by simp
  qed
qed

lemma fresh_notin: "fresh xs \<notin> fst ` set xs"
proof
  assume "fresh xs \<in> fst ` set xs"
  then have "fresh xs \<in> set (map fst xs)" by simp
  from fold_max_ge [OF this, of 0] show False by (simp add: fresh_def)
qed

lemma init_effect:
  assumes "init w symbols images = (d, w')"
  shows "names_heap w' = names_heap w"
    and "inst_dict w' d = [(''symbols'', symbols), (''images'', images),
               (''_fields'', PNames DEFAULT_FIELDS), (''_indexers'', PIndexers [])]"
proof -
  from assms have d: "d = fresh (documents w)"
    and w': "w' = w\<lparr>documents := documents w @ [(d, [(''symbols'', symbols), (''images'', images),
               (''_fields'', PNames DEFAULT_FIELDS), (''_indexers'', PIndexers [])])]\<rparr>"
    by (auto simp: init_def Let_def)
  from w' show "names_heap w' = names_heap w" by simp
  from fresh_notin [of "documents w"] d have "map_of (documents w) d = None"
    by (simp add: map_of_eq_None_iff)
  with w' show "inst_dict w' d = [(''symbols'', symbols), (''images'', images),
               (''_fields'', PNames DEFAULT_FIELDS), (''_indexers'', PIndexers [])]"
    by (simp add: inst_dict_def map_add_def)
qed

text \<open>
  C10. Field registration changes state shared by all Documents. Let a Document whose
  \<^verbatim>\<open>_fields\<close> is the class's list (as \<^verbatim>\<open>__init__\<close> leaves it) register the name \<open>n\<close>
  by a call of \<^verbatim>\<open>annotate\<close> that returns. Then, after any further steps of the program, a
  newly built Document has \<open>n\<close> among its field names and an empty indexer mapping, and
  its \<^verbatim>\<open>annotate\<close> with the name \<open>n\<close> fails on the assertion that the name already exists,
  leaving the state as it was.
\<close>

theorem field_names_are_shared:
  assumes "attr w d1 ''_fields'' = Inr (PNames DEFAULT_FIELDS)"
    and "annotate w d1 kw = Returns u w1"
    and "n \<in> fst ` set kw"
    and "step\<^sup>*\<^sup>* w1 w2"
    and "init w2 symbols images = (d2, w3)"
  shows "(\<exists>fs. field_names w3 d2 = Inr fs \<and> n \<in> set fs)
    \<and> attr w3 d2 ''_indexers'' = Inr (PIndexers [])
    \<and> annotate w3 d2 ((n, field_annotations) # rest)
        = Raises (AssertionError ''This field name already exists'') w3"
proof -
  from annotate_registers [OF assms(2,3,1)] obtain fs where
    fs: "map_of (names_heap w1) DEFAULT_FIELDS = Some fs" "n \<in> set fs"
    and n: "\<not> startswith n ''_''" by blast
  from steps_extends [OF assms(4)] fs(1) obtain ys where
    "map_of (names_heap w2) DEFAULT_FIELDS = Some (fs @ ys)" by (auto simp: extends_def)
  with init_effect(1) [OF assms(5)]
  have h: "map_of (names_heap w3) DEFAULT_FIELDS = Some (fs @ ys)" by simp
  note i = init_effect(2) [OF assms(5)]
  from i have f: "attr w3 d2 ''_fields'' = Inr (PNames DEFAULT_FIELDS)"
    by (simp add: attr_def)
  from i have x: "attr w3 d2 ''_indexers'' = Inr (PIndexers [])"
    by (simp add: attr_def)
  from f h have fn: "field_names w3 d2 = Inr (fs @ ys)"
    by (simp add: field_names_def fields_doc_def names_at_def)
  from f h n fs(2) have "u_register_field w3 d2 n
      = Raises (AssertionError ''This field name already exists'') w3"
    by (simp add: u_register_field_def fields_doc_def names_at_def)
  then have "annotate w3 d2 ((n, field_annotations) # rest)
        = Raises (AssertionError ''This field name already exists'') w3"
    by (simp add: u_annotate_def)
  with fn fs(2) x show ?thesis by simp
qed


theorem field_names_are_shared_witness:
  "attr ex_w2 1 ''_fields'' = Inr (PNames DEFAULT_FIELDS)
   \<and> annotate ex_w2 1 [(''tokens'', [0, 1])] = Returns () ex_w3
   \<and> ''tokens'' \<in> fst ` set [(''tokens'', [0 :: addr, 1])]
   \<and> step\<^sup>*\<^sup>* ex_w3 ex_w4
   \<and> init ex_w4 (PSymbols ex_symbols) PNone = (3, ex_w8)
   \<and> (\<exists>fs. field_names ex_w8 3 = Inr fs \<and> ''tokens'' \<in> set fs)
   \<and> attr ex_w8 3 ''_indexers'' = Inr (PIndexers [])
   \<and> annotate ex_w8 3 [(''tokens'', [2])]
        = Raises (AssertionError ''This field name already exists'') ex_w8"
proof -
  have h1: "attr ex_w2 1 ''_fields'' = Inr (PNames DEFAULT_FIELDS)" by code_simp
  have h2: "annotate ex_w2 1 [(''tokens'', [0, 1])] = Returns () ex_w3" by code_simp
  have h3: "''tokens'' \<in> fst ` set [(''tokens'', [0 :: addr, 1])]" by simp
  have "step ex_w3 (world_of (annotate ex_w3 2 [(''sentences'', [2])]))" by (rule step.annotated)
  then have h4: "step\<^sup>*\<^sup>* ex_w3 ex_w4" unfolding ex_w4_def by (rule r_into_rtranclp)
  have h5: "init ex_w4 (PSymbols ex_symbols) PNone = (3, ex_w8)" by code_simp
  note t = field_names_are_shared [OF h1 h2 h3 h4 h5, of "[2]" "[]"]
  from t have c1: "\<exists>fs. field_names ex_w8 3 = Inr fs \<and> ''tokens'' \<in> set fs" by (rule conjunct1)
  from t have c2: "attr ex_w8 3 ''_indexers'' = Inr (PIndexers [])" by simp
  from t have c3: "annotate ex_w8 3 [(''tokens'', [2])]
        = Raises (AssertionError ''This field name already exists'') ex_w8" by simp
  show ?thesis by (intro conjI h1 h2 h3 h4 h5 c1 c2 c3)
qed

subsection \<open>save in the directory layout\<close>

lemma str_nat_decode:
  "foldl (\<lambda>acc c. 10 * acc + (of_char c - 48)) 0 (str_nat n) = n"
proof (induction n rule: str_nat.induct)
  case (1 n)
  show ?case
  proof (cases "n < 10")
    case True
    then have "(48 + n) mod 256 = 48 + n" by simp
    with True show ?thesis by (simp add: str_nat.simps [of n])
  next
    case False
    have "(48 + n mod 10) mod 256 = 48 + n mod 10" by simp
    with False "1.IH" show ?thesis by (simp add: str_nat.simps [of n])
  qed
qed

lemma str_nat_inj: "str_nat m = str_nat n \<Longrightarrow> m = n"
  by (metis str_nat_decode)

lemma page_file_inj: "join p (str_nat m @ ''.png'') = join p (str_nat n @ ''.png'') \<Longrightarrow> m = n"
  by (simp add: join_def str_nat_inj)

lemma page_file_not_json: "join p (str_nat m @ ''.png'') \<noteq> join p ''document.json''"
proof
  assume "join p (str_nat m @ ''.png'') = join p ''document.json''"
  then have "str_nat m @ ''.png'' = ''document.json''" by (simp add: join_def)
  then have "last (str_nat m @ ''.png'') = last ''document.json''" by simp
  then show False by simp
qed

lemma join_not_self: "join p name \<noteq> p"
  by (simp add: join_def)

lemma butlast_join: "butlast (join p name) = p"
  by (simp add: join_def)

lemma write_file_ok:
  "lookup fs p \<noteq> Some Dir \<Longrightarrow> isdir fs (butlast p) \<Longrightarrow>
     write_file fs p content = Inr (AList.update p content fs)"
  by (simp add: write_file_def isdir_def)

lemma lookup_update:
  "p \<noteq> [] \<Longrightarrow> lookup (AList.update p content fs) q = (if q = p then Some content else lookup fs q)"
  by (simp add: lookup_def update_conv')

lemma not_dir_nonempty: "lookup fs p \<noteq> Some Dir \<Longrightarrow> p \<noteq> []"
  by (auto simp: lookup_def)

lemma save_images_ok:
  "isdir fs p \<Longrightarrow> (\<forall>i<length imgs. lookup fs (join p (str_nat (k + i) @ ''.png'')) \<noteq> Some Dir) \<Longrightarrow>
   \<exists>fs'. save_images fs p k (map EImage imgs) = (Inr (), fs')
     \<and> (\<forall>i<length imgs. lookup fs' (join p (str_nat (k + i) @ ''.png'')) = Some (ImageFile (imgs ! i)))
     \<and> (\<forall>q. (\<forall>i<length imgs. q \<noteq> join p (str_nat (k + i) @ ''.png'')) \<longrightarrow> lookup fs' q = lookup fs q)"
proof (induction imgs arbitrary: fs k)
  case Nil
  then show ?case by simp
next
  case (Cons img imgs)
  let ?f = "join p (str_nat k @ ''.png'')"
  let ?fs1 = "AList.update ?f (ImageFile img) fs"
  from Cons.prems(2) have nd: "lookup fs ?f \<noteq> Some Dir" by force
  then have ne: "?f \<noteq> []" by (rule not_dir_nonempty)
  from nd Cons.prems(1) have w: "write_file fs ?f (ImageFile img) = Inr ?fs1"
    by (simp add: write_file_ok butlast_join)
  have l1: "lookup ?fs1 q = (if q = ?f then Some (ImageFile img) else lookup fs q)" for q
    using ne by (rule lookup_update)
  have "p \<noteq> ?f" using join_not_self [of p "str_nat k @ ''.png''"] by simp
  with Cons.prems(1) have d1: "isdir ?fs1 p" by (simp add: isdir_def l1)
  have t1: "\<forall>i<length imgs. lookup ?fs1 (join p (str_nat (Suc k + i) @ ''.png'')) \<noteq> Some Dir"
  proof (intro allI impI)
    fix i assume "i < length imgs"
    with Cons.prems(2) have "lookup fs (join p (str_nat (k + Suc i) @ ''.png'')) \<noteq> Some Dir"
      by force
    moreover have "join p (str_nat (Suc k + i) @ ''.png'') \<noteq> ?f"
      using page_file_inj [of p "Suc k + i" k] by auto
    ultimately show "lookup ?fs1 (join p (str_nat (Suc k + i) @ ''.png'')) \<noteq> Some Dir"
      by (simp add: l1)
  qed
  from Cons.IH [OF d1 t1] obtain fs' where
    s: "save_images ?fs1 p (Suc k) (map EImage imgs) = (Inr (), fs')"
    and a: "\<forall>i<length imgs. lookup fs' (join p (str_nat (Suc k + i) @ ''.png'')) = Some (ImageFile (imgs ! i))"
    and b: "\<forall>q. (\<forall>i<length imgs. q \<noteq> join p (str_nat (Suc k + i) @ ''.png'')) \<longrightarrow> lookup fs' q = lookup ?fs1 q"
    by blast
  have r: "save_images fs p k (map EImage (img # imgs)) = (Inr (), fs')"
    using w s by (simp add: Image_save_def)
  have a': "\<forall>i<length (img # imgs). lookup fs' (join p (str_nat (k + i) @ ''.png'')) = Some (ImageFile ((img # imgs) ! i))"
  proof (intro allI impI)
    fix i assume i: "i < length (img # imgs)"
    show "lookup fs' (join p (str_nat (k + i) @ ''.png'')) = Some (ImageFile ((img # imgs) ! i))"
    proof (cases i)
      case 0
      have "\<forall>j<length imgs. ?f \<noteq> join p (str_nat (Suc k + j) @ ''.png'')"
        using page_file_inj [of p k] by force
      with b have "lookup fs' ?f = lookup ?fs1 ?f" by blast
      with 0 show ?thesis by (simp add: l1)
    next
      case (Suc j)
      with i a show ?thesis by simp
    qed
  qed
  have b': "\<forall>q. (\<forall>i<length (img # imgs). q \<noteq> join p (str_nat (k + i) @ ''.png'')) \<longrightarrow> lookup fs' q = lookup fs q"
  proof (intro allI impI)
    fix q assume q: "\<forall>i<length (img # imgs). q \<noteq> join p (str_nat (k + i) @ ''.png'')"
    then have q0: "q \<noteq> ?f" by force
    have "\<forall>i<length imgs. q \<noteq> join p (str_nat (Suc k + i) @ ''.png'')"
    proof (intro allI impI)
      fix i assume "i < length imgs"
      with q have "q \<noteq> join p (str_nat (k + Suc i) @ ''.png'')" by force
      then show "q \<noteq> join p (str_nat (Suc k + i) @ ''.png'')" by simp
    qed
    with b have "lookup fs' q = lookup ?fs1 q" by blast
    with q0 show "lookup fs' q = lookup fs q" by (simp add: l1)
  qed
  from r a' b' show ?case by blast
qed


text \<open>
  C8, as amended. \<^verbatim>\<open>save\<close> in the directory layout (\<^verbatim>\<open>with_images\<close> true,
  \<^verbatim>\<open>images_in_json\<close> false). When the path is not an existing directory the call fails on
  its assertion and writes nothing. When it is one, and the requested fields serialize
  (\<^verbatim>\<open>to_json\<close> returns), the Document has a sequence of images and no target file name is
  taken by a directory, the call returns; afterwards \<^verbatim>\<open>document.json\<close> holds the JSON
  form, which has no key \<^verbatim>\<open>Images\<close>, the file named by the decimal page index \<open>i\<close> and
  \<^verbatim>\<open>.png\<close> holds the \<open>i\<close>-th image, counting from zero, and every other path is as before.
\<close>

theorem save_directory_layout:
  "(\<not> isdir fs p \<longrightarrow>
      save w self fs p fields_arg True False = (Inl (AssertionError
        ''When with_images=True and images_in_json=False, it requires the path to be a folder''), fs))
   \<and> (isdir fs p \<and> to_json w self fields_arg False = Inr doc_json
        \<and> attr w self ''images'' = Inr (PImages imgs)
        \<and> lookup fs (join p ''document.json'') \<noteq> Some Dir
        \<and> (\<forall>i<length imgs. lookup fs (join p (str_nat i @ ''.png'')) \<noteq> Some Dir) \<longrightarrow>
      (\<exists>fs'. save w self fs p fields_arg True False = (Inr (), fs')
         \<and> lookup fs' (join p ''document.json'') = Some (JsonFile (JDict doc_json))
         \<and> Images \<notin> fst ` set doc_json
         \<and> (\<forall>i<length imgs. lookup fs' (join p (str_nat i @ ''.png'')) = Some (ImageFile (imgs ! i)))
         \<and> (\<forall>q. q \<noteq> join p ''document.json''
                \<and> (\<forall>i<length imgs. q \<noteq> join p (str_nat i @ ''.png'')) \<longrightarrow>
                lookup fs' q = lookup fs q)))"
proof (intro conjI impI)
  assume "\<not> isdir fs p"
  then show "save w self fs p fields_arg True False = (Inl (AssertionError
        ''When with_images=True and images_in_json=False, it requires the path to be a folder''), fs)"
    by (simp add: save_def)
next
  assume a: "isdir fs p \<and> to_json w self fields_arg False = Inr doc_json
        \<and> attr w self ''images'' = Inr (PImages imgs)
        \<and> lookup fs (join p ''document.json'') \<noteq> Some Dir
        \<and> (\<forall>i<length imgs. lookup fs (join p (str_nat i @ ''.png'')) \<noteq> Some Dir)"
  let ?j = "join p ''document.json''"
  let ?fs1 = "AList.update ?j (JsonFile (JDict doc_json)) fs"
  from a have d: "isdir fs p" and t: "to_json w self fields_arg False = Inr doc_json"
    and i: "attr w self ''images'' = Inr (PImages imgs)"
    and nj: "lookup fs ?j \<noteq> Some Dir"
    and ni: "\<forall>i<length imgs. lookup fs (join p (str_nat i @ ''.png'')) \<noteq> Some Dir"
    by simp_all
  from nj have ne: "?j \<noteq> []" by (rule not_dir_nonempty)
  have l1: "lookup ?fs1 q = (if q = ?j then Some (JsonFile (JDict doc_json)) else lookup fs q)" for q
    using ne by (rule lookup_update)
  from nj d have w1: "write_file fs ?j (JsonFile (JDict doc_json)) = Inr ?fs1"
    by (simp add: write_file_ok butlast_join)
  have "p \<noteq> ?j" using join_not_self [of p "''document.json''"] by simp
  with d have d1: "isdir ?fs1 p" by (simp add: isdir_def l1)
  have n1: "\<forall>i<length imgs. lookup ?fs1 (join p (str_nat (0 + i) @ ''.png'')) \<noteq> Some Dir"
    using ni page_file_not_json [of p] by (simp add: l1)
  from save_images_ok [OF d1 n1] obtain fs' where
    s: "save_images ?fs1 p 0 (map EImage imgs) = (Inr (), fs')"
    and sa: "\<forall>i<length imgs. lookup fs' (join p (str_nat (0 + i) @ ''.png'')) = Some (ImageFile (imgs ! i))"
    and sb: "\<forall>q. (\<forall>i<length imgs. q \<noteq> join p (str_nat (0 + i) @ ''.png'')) \<longrightarrow> lookup fs' q = lookup ?fs1 q"
    by blast
  have r: "save w self fs p fields_arg True False = (Inr (), fs')"
    using d t i w1 s by (simp add: save_def iterate_def)
  have "\<forall>i<length imgs. ?j \<noteq> join p (str_nat (0 + i) @ ''.png'')"
    using page_file_not_json [of p] by metis
  with sb have "lookup fs' ?j = lookup ?fs1 ?j" by blast
  then have c1: "lookup fs' ?j = Some (JsonFile (JDict doc_json))" by (simp add: l1)
  from t obtain fs0 where "dict_comp w self (filter (\<lambda>field. field \<noteq> Images) fs0) [] = Inr doc_json"
    by (auto simp: to_json_def split: sum.splits)
  from dict_comp_keys [OF this] have c2: "Images \<notin> fst ` set doc_json" by auto
  from sa have c3: "\<forall>i<length imgs. lookup fs' (join p (str_nat i @ ''.png'')) = Some (ImageFile (imgs ! i))"
    by simp
  have c4: "\<forall>q. q \<noteq> ?j \<and> (\<forall>i<length imgs. q \<noteq> join p (str_nat i @ ''.png'')) \<longrightarrow>
                lookup fs' q = lookup fs q"
  proof (intro allI impI)
    fix q assume q: "q \<noteq> ?j \<and> (\<forall>i<length imgs. q \<noteq> join p (str_nat i @ ''.png''))"
    then have "\<forall>i<length imgs. q \<noteq> join p (str_nat (0 + i) @ ''.png'')" by simp
    with sb have "lookup fs' q = lookup ?fs1 q" by blast
    with q show "lookup fs' q = lookup fs q" by (simp add: l1)
  qed
  from r c1 c2 c3 c4 show "\<exists>fs'. save w self fs p fields_arg True False = (Inr (), fs')
         \<and> lookup fs' (join p ''document.json'') = Some (JsonFile (JDict doc_json))
         \<and> Images \<notin> fst ` set doc_json
         \<and> (\<forall>i<length imgs. lookup fs' (join p (str_nat i @ ''.png'')) = Some (ImageFile (imgs ! i)))
         \<and> (\<forall>q. q \<noteq> join p ''document.json''
                \<and> (\<forall>i<length imgs. q \<noteq> join p (str_nat i @ ''.png'')) \<longrightarrow>
                lookup fs' q = lookup fs q)" by blast
qed

theorem save_directory_layout_witness:
  "\<not> isdir [] [''out'']
   \<and> save ex_w3 1 [] [''out''] None True False = (Inl (AssertionError
        ''When with_images=True and images_in_json=False, it requires the path to be a folder''), [])
   \<and> isdir ex_dir [''out'']
   \<and> to_json ex_w3 1 None False = Inr ex_json
   \<and> attr ex_w3 1 ''images'' = Inr (PImages [''page0'', ''page1''])
   \<and> lookup ex_dir (join [''out''] ''document.json'') \<noteq> Some Dir
   \<and> lookup ex_dir (join [''out''] (str_nat 0 @ ''.png'')) \<noteq> Some Dir
   \<and> lookup ex_dir (join [''out''] (str_nat 1 @ ''.png'')) \<noteq> Some Dir
   \<and> save ex_w3 1 ex_dir [''out''] None True False = (Inr (), ex_saved)
   \<and> lookup ex_saved (join [''out''] ''document.json'') = Some (JsonFile (JDict ex_json))
   \<and> Images \<notin> fst ` set ex_json
   \<and> lookup ex_saved (join [''out''] (str_nat 0 @ ''.png'')) = Some (ImageFile ''page0'')
   \<and> lookup ex_saved (join [''out''] (str_nat 1 @ ''.png'')) = Some (ImageFile ''page1'')"
proof -
  have h0: "\<not> isdir [] [''out'']" by code_simp
  have h1: "isdir ex_dir [''out'']" by code_simp
  have h2: "to_json ex_w3 1 None False = Inr ex_json" by code_simp
  have h3: "attr ex_w3 1 ''images'' = Inr (PImages [''page0'', ''page1''])" by code_simp
  have h4: "lookup ex_dir (join [''out''] ''document.json'') \<noteq> Some Dir" by code_simp
  have h5: "lookup ex_dir (join [''out''] (str_nat 0 @ ''.png'')) \<noteq> Some Dir" by code_simp
  have h6: "lookup ex_dir (join [''out''] (str_nat 1 @ ''.png'')) \<noteq> Some Dir" by code_simp
  have h7: "\<forall>i<length [''page0'', ''page1'']. lookup ex_dir (join [''out''] (str_nat i @ ''.png'')) \<noteq> Some Dir"
    by (simp add: lookup_def ex_dir_def join_def)
  have h8: "save ex_w3 1 ex_dir [''out''] None True False = (Inr (), ex_saved)" by code_simp
  note a = save_directory_layout [of "[]" "[''out'']" ex_w3 1 None, THEN conjunct1, rule_format, OF h0]
  from save_directory_layout [of ex_dir "[''out'']" ex_w3 1 None ex_json "[''page0'', ''page1'']",
      THEN conjunct2, rule_format, OF conjI [OF h1 conjI [OF h2 conjI [OF h3 conjI [OF h4 h7]]]]]
  obtain fs' where s: "save ex_w3 1 ex_dir [''out''] None True False = (Inr (), fs')"
    and c1: "lookup fs' (join [''out''] ''document.json'') = Some (JsonFile (JDict ex_json))"
    and c2: "Images \<notin> fst ` set ex_json"
    and c3: "\<forall>i<length [''page0'', ''page1'']. lookup fs' (join [''out''] (str_nat i @ ''.png''))
        = Some (ImageFile ([''page0'', ''page1''] ! i))"
    by blast
  from s h8 have e: "fs' = ex_saved" by simp
  from c1 e have d1: "lookup ex_saved (join [''out''] ''document.json'') = Some (JsonFile (JDict ex_json))"
    by simp
  from c3 e have d3: "lookup ex_saved (join [''out''] (str_nat 0 @ ''.png'')) = Some (ImageFile ''page0'')"
    by force
  from c3 e have d4: "lookup ex_saved (join [''out''] (str_nat 1 @ ''.png'')) = Some (ImageFile ''page1'')"
    by force
  show ?thesis by (intro conjI h0 a h1 h2 h3 h4 h5 h6 h8 d1 c2 d3 d4)
qed

text \<open>
  C8 as the claim states it, that the files are written whenever the path is an existing
  directory, fails. In the directory \<open>out\<close>: a Document built without images, saved with
  the default arguments, has \<^verbatim>\<open>document.json\<close> written and then raises TypeError at
  \<^verbatim>\<open>enumerate(self.images)\<close>, no image file being written; a request for a field the
  Document does not have raises AttributeError in \<^verbatim>\<open>to_json\<close> and writes nothing, and so
  does the default request on Document 1 once Document 2 has registered \<^verbatim>\<open>sentences\<close>; a
  directory named \<^verbatim>\<open>document.json\<close> makes the call raise before anything is written, one
  named \<^verbatim>\<open>0.png\<close> after \<^verbatim>\<open>document.json\<close> was written.
\<close>

theorem save_directory_layout_counterexample:
  "isdir ex_dir [''out'']
   \<and> save ex_w2 2 ex_dir [''out''] None True False
       = (Inl (TypeError ''not iterable''),
          [([''out''], Dir),
           ([''out'', ''document.json''], JsonFile (JDict [(''symbols'', JList [JStr ''a b''])]))])
   \<and> save ex_w3 1 ex_dir [''out''] (Some [''paragraphs'']) True False
       = (Inl (AttributeError ''paragraphs''), ex_dir)
   \<and> save ex_w4 1 ex_dir [''out''] None True False = (Inl (AttributeError ''sentences''), ex_dir)
   \<and> isdir ex_dir_json_taken [''out'']
   \<and> save ex_w3 1 ex_dir_json_taken [''out''] None True False
       = (Inl IsADirectoryError, ex_dir_json_taken)
   \<and> isdir ex_dir_page_taken [''out'']
   \<and> save ex_w3 1 ex_dir_page_taken [''out''] None True False
       = (Inl IsADirectoryError,
          [([''out''], Dir), ([''out'', ''0.png''], Dir),
           ([''out'', ''document.json''], JsonFile (JDict ex_json))])"
  by code_simp

subsection \<open>What add checks, and what load returns\<close>

text \<open>
  The parts of the contract of \<^verbatim>\<open>add\<close> that the code keeps: when \<^verbatim>\<open>_add\<close> returns, the name
  was in the list of fields and in the indexer mapping, every Annotation of the sequence was
  bound to some Document, and nothing but the attribute of that name has changed (the
  indexers are untouched).
\<close>

lemma assert_docs_None:
  "assert_docs w self as = None \<Longrightarrow> a \<in> set as \<Longrightarrow>
     \<exists>ann d. map_of (annotations w) a = Some ann \<and> doc ann = Some d"
proof (induction as)
  case Nil
  then show ?case by simp
next
  case (Cons b as)
  then show ?case
    by (cases "a = b") (auto simp: doc_eq_def split: option.splits if_splits)
qed

lemma u_add_Returns:
  assumes "u_add w self n as = Returns u w'"
  shows "\<exists>fs. field_names w self = Inr fs \<and> n \<in> set fs"
    and "\<exists>d. attr w self ''_indexers'' = Inr (PIndexers d) \<and> n \<in> fst ` set d"
    and "\<forall>a\<in>set as. \<exists>ann d. map_of (annotations w) a = Some ann \<and> doc ann = Some d"
    and "w' = w\<lparr>documents := AList.update self (AList.update n (PAnnotations as) (inst_dict w self)) (documents w)\<rparr>"
  using assms unfolding u_add_def field_names_def fields_doc_def
  by (auto simp: setattr_def split: sum.splits if_splits pyval.splits option.splits dest: assert_docs_None)

text \<open>\<^verbatim>\<open>load\<close> returns no Document, whatever the path holds, and leaves the state as it was.\<close>

lemma load_never_returns: "\<exists>e. load w fs p = Raises e w"
proof (cases "load w fs p")
  case (Returns d w')
  have "load_document w fs q images \<noteq> Returns d w'" for q images
  proof
    assume r: "load_document w fs q images = Returns d w'"
    then obtain f j d1 w1 where "from_json w j = Returns d1 w1"
      by (auto simp: load_document_def split: sum.splits result.splits)
    with from_json_Raises [of w j] show False by auto
  qed
  with Returns show ?thesis by (auto simp: load_def Let_def split: if_splits sum.splits)
next
  case (Raises e w')
  with load_world [of w fs p] show ?thesis by (simp add: world_of_def)
qed

end
